theory Spec2Isabelle
  imports Main "HOL-Library.Multiset"
begin

chapter \<open>The transport and transaction layer of sip-party\<close>

text \<open>
  A shallow embedding of the parts of sip-party that schedule retries
  (\<^verbatim>\<open>sip/retrythread.py\<close>), turn received bytes into SIP messages and route them to
  dialogs (\<^verbatim>\<open>sipparty/sip/siptransport.py\<close>), find the transaction of a message
  (\<^verbatim>\<open>sipparty/sip/transaction/manager.py\<close>) and keep the cache of sockets
  (\<^verbatim>\<open>sipparty/transport.py\<close>). Methods that change an object take the object and return
  it as they leave it; a method that can raise returns the exception as a value. The
  definitions come first, then the properties, one section for each module.
\<close>

section \<open>The retry thread: the ordered list of retry times\<close>

text \<open>
  \<^verbatim>\<open>sip/retrythread.py\<close>, class \<^verbatim>\<open>RetryThread\<close>. The thread keeps the times at
  which its action is to run in \<^verbatim>\<open>_rthr_retryTimes\<close>; \<^verbatim>\<open>addRetryTime\<close> writes a
  byte to \<^verbatim>\<open>_rthr_triggerRunFD\<close> to wake the loop of \<^verbatim>\<open>run\<close>. The fields below are the
  ones \<^verbatim>\<open>addRetryTime\<close> and \<^verbatim>\<open>cancel\<close> read or write; the bytes written to the
  trigger socket are counted.

  Times are the values of \<^verbatim>\<open>Clock\<close> and are only compared (\<^verbatim>\<open><\<close>, \<^verbatim>\<open>==\<close>): they are
  modelled as a linear order.
\<close>

record 'a RetryThread =
  rthr_cancelled :: bool
  rthr_retryTimes :: "'a list"
  rthr_triggerRunFD_sent :: nat

definition RetryThread_init :: "'a RetryThread" where
  "RetryThread_init =
     \<lparr>rthr_cancelled = False, rthr_retryTimes = [], rthr_triggerRunFD_sent = 0\<rparr>"

text \<open>
  The three ways the \<^verbatim>\<open>for ... else\<close> loop of \<^verbatim>\<open>addRetryTime\<close> ends: \<^verbatim>\<open>break\<close> with the
  index \<^verbatim>\<open>ii\<close>, \<^verbatim>\<open>return\<close> (the time is present), or the iterator is exhausted and the
  \<^verbatim>\<open>else\<close> branch runs.
\<close>

datatype scan_end = Break nat | Return | Exhausted

fun scan_retryTimes :: "'a::linorder \<Rightarrow> (nat \<times> 'a) list \<Rightarrow> scan_end" where
  "scan_retryTimes ctime [] = Exhausted"
| "scan_retryTimes ctime ((ii, time) # rest) =
     (if ctime < time then Break ii
      else if ctime = time then Return
      else scan_retryTimes ctime rest)"

text \<open>Python's \<^verbatim>\<open>list.insert(i, x)\<close> for \<^verbatim>\<open>i \<ge> 0\<close>.\<close>

definition list_insert :: "nat \<Rightarrow> 'a \<Rightarrow> 'a list \<Rightarrow> 'a list" where
  "list_insert i x xs = take i xs @ x # drop i xs"

definition addRetryTime :: "'a::linorder RetryThread \<Rightarrow> 'a \<Rightarrow> 'a RetryThread" where
  "addRetryTime self ctime =
     (let rts = rthr_retryTimes self in
      case scan_retryTimes ctime (zip [0..<length rts] rts) of
        Return \<Rightarrow> self
      | Break ii \<Rightarrow>
          self\<lparr>rthr_retryTimes := list_insert ii ctime rts,
               rthr_triggerRunFD_sent := rthr_triggerRunFD_sent self + 1\<rparr>
      | Exhausted \<Rightarrow>
          self\<lparr>rthr_retryTimes := list_insert (length rts) ctime rts,
               rthr_triggerRunFD_sent := rthr_triggerRunFD_sent self + 1\<rparr>)"

definition cancel :: "'a RetryThread \<Rightarrow> 'a RetryThread" where
  "cancel self =
     self\<lparr>rthr_cancelled := True,
          rthr_triggerRunFD_sent := rthr_triggerRunFD_sent self + 1\<rparr>"

section \<open>Python values shared by the modules\<close>

text \<open>
  Byte strings are lists of characters (a \<^typ>\<open>char\<close> is a byte). Exceptions are values;
  every constructor stands for a subclass of Python's \<^verbatim>\<open>Exception\<close>. \<^verbatim>\<open>TransactionKeyError\<close>
  is the \<^verbatim>\<open>KeyError\<close> of a failed look-up in \<^verbatim>\<open>TransactionManager.transactions\<close>: its
  first argument is the key, its second the message type that \<^verbatim>\<open>lookup_transaction\<close>
  adds to the exception's arguments. \<^verbatim>\<open>Raised\<close> is any other exception of a
  collaborator.
\<close>

type_synonym bytes = string

datatype msg_type = Method string | Code int

datatype ttype = client | server | oneshot

datatype TransactionID = TransactionID ttype string string

datatype py_exception =
    ParseError
  | AssertionError
  | AttributeError string
  | KeyError string
  | TypeError string
  | ValueError string
  | TransactionKeyError TransactionID "msg_type option"
  | SocketInUseError
  | BadNetwork
  | Raised string

text \<open>
  Python's \<^verbatim>\<open>data.find(sub)\<close>: the lowest index at which \<^verbatim>\<open>sub\<close> starts in \<^verbatim>\<open>data\<close>,
  or \<open>-1\<close>.
\<close>

fun find_from :: "nat \<Rightarrow> bytes \<Rightarrow> bytes \<Rightarrow> int" where
  "find_from i sub [] = (if sub = [] then int i else - 1)"
| "find_from i sub (c # cs) =
     (if take (length sub) (c # cs) = sub then int i else find_from (Suc i) sub cs)"

definition bytes_find :: "bytes \<Rightarrow> bytes \<Rightarrow> int" where
  "bytes_find data sub = find_from 0 sub data"

section \<open>The SIP transport: the message demultiplexer\<close>

text \<open>
  \<^verbatim>\<open>sipparty/sip/siptransport.py\<close>, class \<^verbatim>\<open>SIPTransport\<close>.

  A parsed message (class \<^verbatim>\<open>Message\<close>, not among the sources) is the record of the
  attributes the transport and the transaction manager read:
  \<^verbatim>\<open>type\<close> (a request's method or a response's status code),
  \<^verbatim>\<open>FromHeader.parameters.tag.value\<close> and \<^verbatim>\<open>ToHeader.parameters.tag.value\<close> (\<open>None\<close>
  when \<^verbatim>\<open>hasattr(\<dots>parameters, "tag")\<close> is false), \<^verbatim>\<open>Call_IDHeader.value\<close> (\<open>None\<close> when
  \<^verbatim>\<open>hasattr(msg, "Call_IDHeader")\<close> is false), \<^verbatim>\<open>ToHeader.field.value.uri.aor\<close>,
  \<^verbatim>\<open>ViaHeader.parameters.branch.value\<close>, \<^verbatim>\<open>CseqHeader.reqtype\<close> and \<^verbatim>\<open>parsedBytes\<close>.
  The sources spell header attributes in several cases (\<^verbatim>\<open>Call_IDHeader\<close> and
  \<^verbatim>\<open>Call_IdHeader\<close>, \<^verbatim>\<open>ViaHeader\<close> and \<^verbatim>\<open>viaheader\<close>, \<^verbatim>\<open>CseqHeader\<close> and \<^verbatim>\<open>cseqheader\<close>):
  the spellings name the same header.
\<close>

record Message =
  msg_type :: msg_type
  FromHeader_tag :: "string option"
  ToHeader_tag :: "string option"
  Call_IDHeader :: "string option"
  ToHeader_aor :: string
  ViaHeader_branch :: string
  CseqHeader_reqtype :: string
  parsedBytes :: nat

text \<open>
  Modelled from the spec: \<^verbatim>\<open>Message.isrequest\<close> and \<^verbatim>\<open>Message.isresponse\<close> (the class is
  not among the sources). The spec: a message exposes its type (method name or response
  code) and \<^verbatim>\<open>isRequest()\<close>/\<^verbatim>\<open>isResponse()\<close>.
\<close>

definition isrequest :: "Message \<Rightarrow> bool" where
  "isrequest msg = (case msg_type msg of Method m \<Rightarrow> True | Code c \<Rightarrow> False)"

definition isresponse :: "Message \<Rightarrow> bool" where
  "isresponse msg = (case msg_type msg of Method m \<Rightarrow> False | Code c \<Rightarrow> True)"

text \<open>
  \<^verbatim>\<open>prot.EstablishedDialogID\<close> is called with three arguments in
  \<^verbatim>\<open>consumeInDialogMessage\<close>: the Call-ID, the local tag and the remote tag. The module
  \<^verbatim>\<open>prot\<close> is not among the sources: the type of provisional dialog identifiers is a
  parameter \<open>'p\<close>, and \<^verbatim>\<open>prot.ProvisionalDialogIDFromEstablishedID\<close> is a collaborator
  below.
\<close>

datatype EstablishedDialogID = EstablishedDialogID string string string

text \<open>
  Objects are values that carry their identity. A handler object is an instance of
  \<^verbatim>\<open>AORHandler\<close> or of some other type (given by its name); dialogs are identified by
  numbers.
\<close>

datatype py_object = AORHandler_instance nat | Other_instance string

type_synonym dialog = nat

text \<open>
  The collaborators of the transport whose code is not among the sources:
  \<^verbatim>\<open>Message.Parse\<close>, the handler's \<^verbatim>\<open>new_dialog_from_request\<close> (a dialog, \<^verbatim>\<open>None\<close>, or an
  exception), the dialog's \<^verbatim>\<open>consume_message\<close> (\<open>None\<close>: it returns; \<open>Some e\<close>: it raises
  \<open>e\<close>), the dialog's attributes \<^verbatim>\<open>provisionalDialogID\<close> and \<^verbatim>\<open>dialogID\<close> (\<open>None\<close> when
  \<^verbatim>\<open>hasattr(dlg, "dialogID")\<close> is false) as \<^verbatim>\<open>updateDialogGrouping\<close> reads them, and
  \<^verbatim>\<open>prot.ProvisionalDialogIDFromEstablishedID\<close>. What a dialog does with a message it
  consumes is outside the transport.
\<close>

record 'p collaborators =
  Message_Parse :: "bytes \<Rightarrow> py_exception + Message"
  new_dialog_from_request :: "nat \<Rightarrow> Message \<Rightarrow> py_exception + dialog option"
  consume_message :: "dialog \<Rightarrow> Message \<Rightarrow> py_exception option"
  provisionalDialogID :: "dialog \<Rightarrow> 'p"
  dialogID :: "dialog \<Rightarrow> EstablishedDialogID option"
  ProvisionalDialogIDFromEstablishedID :: "EstablishedDialogID \<Rightarrow> 'p"

text \<open>
  Log records of the module's logger \<^verbatim>\<open>log\<close> at level \<^verbatim>\<open>INFO\<close> and above, each with the
  format string of the source; records at \<^verbatim>\<open>DEBUG\<close> and \<^verbatim>\<open>DETAIL\<close> level are not
  modelled. \<^verbatim>\<open>log.exception\<close> writes at level \<^verbatim>\<open>ERROR\<close>.
\<close>

datatype log_level = INFO | WARNING | ERROR

type_synonym log_record = "log_level \<times> string"

text \<open>
  The state of a \<^verbatim>\<open>SIPTransport\<close>: the attributes of \<^verbatim>\<open>__init__\<close>, the log records written
  so far, and the calls of \<^verbatim>\<open>consume_message\<close> made on dialogs so far (the dialog and the
  message handed to it).
\<close>

record 'p SIPTransport =
  sptr_messages :: "Message list"
  sptr_provisionalDialogs :: "'p \<rightharpoonup> dialog"
  sptr_establishedDialogs :: "EstablishedDialogID \<rightharpoonup> dialog"
  sptr_dialogHandlers :: "string \<rightharpoonup> py_object"
  log_records :: "log_record list"
  consume_message_calls :: "(dialog \<times> Message) list"

definition SIPTransport_init :: "'p SIPTransport" where
  "SIPTransport_init =
     \<lparr>sptr_messages = [], sptr_provisionalDialogs = Map.empty,
      sptr_establishedDialogs = Map.empty, sptr_dialogHandlers = Map.empty,
      log_records = [], consume_message_calls = []\<rparr>"

definition log_write :: "log_level \<Rightarrow> string \<Rightarrow> 'p SIPTransport \<Rightarrow> 'p SIPTransport" where
  "log_write level fmt self = self\<lparr>log_records := log_records self @ [(level, fmt)]\<rparr>"

text \<open>
  A method returns the exception it raises, if any, and the transport as the method
  leaves it: what it wrote before it raised stays written.
\<close>

definition addDialogHandlerForAOR ::
  "'p SIPTransport \<Rightarrow> string \<Rightarrow> py_object \<Rightarrow> py_exception option \<times> 'p SIPTransport" where
  "addDialogHandlerForAOR self aor handler =
     (case handler of
        Other_instance type_name \<Rightarrow>
          (Some (TypeError (type_name @ '' instance is not of type AORHandler'')), self)
      | AORHandler_instance h \<Rightarrow>
          if aor \<in> dom (sptr_dialogHandlers self)
          then (Some (KeyError ''Handler already registered for AOR %r''), self)
          else (None, self\<lparr>sptr_dialogHandlers := (sptr_dialogHandlers self)(aor \<mapsto> handler)\<rparr>))"

definition removeDialogHandlerForAOR ::
  "'p SIPTransport \<Rightarrow> string \<Rightarrow> py_exception option \<times> 'p SIPTransport" where
  "removeDialogHandlerForAOR self aor =
     (if aor \<notin> dom (sptr_dialogHandlers self)
      then (Some (KeyError ''AOR handler not registered for AOR %r''), self)
      else (None, self\<lparr>sptr_dialogHandlers := (sptr_dialogHandlers self)(aor := None)\<rparr>))"

definition updateDialogGrouping ::
  "'p collaborators \<Rightarrow> 'p SIPTransport \<Rightarrow> dialog \<Rightarrow> 'p SIPTransport" where
  "updateDialogGrouping env self dlg =
     (let pds = sptr_provisionalDialogs self;
          eds = sptr_establishedDialogs self;
          pdid = provisionalDialogID env dlg
      in case dialogID env dlg of
           Some did \<Rightarrow>
             (let pds' = (if pdid \<in> dom pds then pds(pdid := None) else pds);
                  eds' = (if did \<notin> dom eds then eds(did \<mapsto> dlg) else eds)
              in self\<lparr>sptr_provisionalDialogs := pds', sptr_establishedDialogs := eds'\<rparr>)
         | None \<Rightarrow>
             (if pdid \<notin> dom pds
              then self\<lparr>sptr_provisionalDialogs := pds(pdid \<mapsto> dlg)\<rparr>
              else self))"

text \<open>The call \<^verbatim>\<open>dlg.consume_message(msg)\<close>: the call is recorded, the dialog may raise.\<close>

definition call_consume_message ::
  "'p collaborators \<Rightarrow> 'p SIPTransport \<Rightarrow> dialog \<Rightarrow> Message \<Rightarrow>
     py_exception option \<times> 'p SIPTransport" where
  "call_consume_message env self dlg msg =
     (consume_message env dlg msg,
      self\<lparr>consume_message_calls := consume_message_calls self @ [(dlg, msg)]\<rparr>)"

definition consumeDialogCreatingMessage ::
  "'p collaborators \<Rightarrow> 'p SIPTransport \<Rightarrow> Message \<Rightarrow> py_exception option \<times> 'p SIPTransport" where
  "consumeDialogCreatingMessage env self msg =
     (let toAOR = ToHeader_aor msg in
      case sptr_dialogHandlers self toAOR of
        None \<Rightarrow> (None, log_write INFO ''Message for unregistered AOR %r discarded.'' self)
      | Some (Other_instance type_name) \<Rightarrow>
          (Some (AttributeError ''new_dialog_from_request''), self)
      | Some (AORHandler_instance hdlr) \<Rightarrow>
          (case new_dialog_from_request env hdlr msg of
             Inl e \<Rightarrow> (Some e, self)
           | Inr None \<Rightarrow>
               (None,
                log_write INFO
                  ''Dropped dialog creating %s message as not wanted by AOR handler'' self)
           | Inr (Some dlg) \<Rightarrow>
               (case call_consume_message env self dlg msg of
                  (Some e, self') \<Rightarrow> (Some e, self')
                | (None, self') \<Rightarrow> (None, updateDialogGrouping env self' dlg))))"

text \<open>
  \<^verbatim>\<open>consumeInDialogMessage\<close> reads \<^verbatim>\<open>msg.Call_IDHeader.value\<close> and the two tags' values; a
  missing attribute raises \<^verbatim>\<open>AttributeError\<close>. Its last branch logs a warning and then
  runs \<^verbatim>\<open>assert 0, (dict(provDs), dict(estDs))\<close>.
\<close>

definition consumeInDialogMessage ::
  "'p collaborators \<Rightarrow> 'p SIPTransport \<Rightarrow> Message \<Rightarrow> py_exception option \<times> 'p SIPTransport" where
  "consumeInDialogMessage env self msg =
     (case Call_IDHeader msg of
        None \<Rightarrow> (Some (AttributeError ''Call_IDHeader''), self)
      | Some call_id \<Rightarrow>
     (case (if isresponse msg then FromHeader_tag msg else ToHeader_tag msg) of
        None \<Rightarrow> (Some (AttributeError ''tag''), self)
      | Some local_tag \<Rightarrow>
     (case (if isresponse msg then ToHeader_tag msg else FromHeader_tag msg) of
        None \<Rightarrow> (Some (AttributeError ''tag''), self)
      | Some remote_tag \<Rightarrow>
     (let did = EstablishedDialogID call_id local_tag remote_tag in
      case sptr_establishedDialogs self did of
        Some dlg \<Rightarrow> call_consume_message env self dlg msg
      | None \<Rightarrow>
          (let pdid = ProvisionalDialogIDFromEstablishedID env did in
           case sptr_provisionalDialogs self pdid of
             Some dlg \<Rightarrow> call_consume_message env self dlg msg
           | None \<Rightarrow>
               (Some AssertionError,
                log_write WARNING
                  ''Unable to find a dialog for message with dialog ID %r'' self))))))"

text \<open>
  In \<^verbatim>\<open>consumeMessage\<close> the branch for a missing or empty Call-ID first evaluates
  \<^verbatim>\<open>msg.Call_IDHeader\<close> for a debug record, which raises \<^verbatim>\<open>AttributeError\<close> when the
  message has no such attribute.
\<close>

definition consumeMessage ::
  "'p collaborators \<Rightarrow> 'p SIPTransport \<Rightarrow> Message \<Rightarrow> py_exception option \<times> 'p SIPTransport" where
  "consumeMessage env self0 msg =
     (let self = self0\<lparr>sptr_messages := sptr_messages self0 @ [msg]\<rparr> in
      if msg_type msg = Method ''ACK'' then (None, self)
      else if FromHeader_tag msg = None
      then (None, log_write INFO ''Message with no from tag is discarded.'' self)
      else if Call_IDHeader msg = None then (Some (AttributeError ''Call_IDHeader''), self)
      else if length (the (Call_IDHeader msg)) = 0
      then (None, log_write INFO ''Message with no Call-ID is discarded.'' self)
      else if ToHeader_tag msg = None then consumeDialogCreatingMessage env self msg
      else consumeInDialogMessage env self msg)"

definition eoleol :: bytes where
  "eoleol = [CHR 0x0D, CHR 0x0A, CHR 0x0D, CHR 0x0A]"

text \<open>
  \<^verbatim>\<open>sipByteConsumer\<close> returns the number of bytes it consumed, or raises: only
  \<^verbatim>\<open>ParseError\<close> is caught around \<^verbatim>\<open>Message.Parse\<close>, every \<^verbatim>\<open>Exception\<close> around
  \<^verbatim>\<open>consumeMessage\<close>. The transport keeps no bytes between two calls. Of its callers in
  \<^verbatim>\<open>transport.py\<close>, \<^verbatim>\<open>SocketProxy._readable_socket_selected\<close> hands it the bytes of one
  \<^verbatim>\<open>recvfrom\<close> and does not read the result; \<^verbatim>\<open>Transport.receivedData\<close>, which kept the
  bytes of a connection that a consumer had not consumed in a buffer, is among the
  deprecated methods that begin with \<^verbatim>\<open>assert 0\<close>.
\<close>

definition sipByteConsumer ::
  "'p collaborators \<Rightarrow> 'p SIPTransport \<Rightarrow> bytes \<Rightarrow> (py_exception + int) \<times> 'p SIPTransport" where
  "sipByteConsumer env self data =
     (let eoleol_index = bytes_find data eoleol in
      if eoleol_index = - 1 then (Inr 0, self)
      else case Message_Parse env data of
             Inl pe \<Rightarrow>
               if pe = ParseError
               then (Inr 0, log_write ERROR ''Parse errror %s parsing message.'' self)
               else (Inl pe, self)
           | Inr msg \<Rightarrow>
               (case consumeMessage env (log_write INFO ''Message parsed.'' self) msg of
                  (None, self') \<Rightarrow> (Inr (int (parsedBytes msg)), self')
                | (Some e, self') \<Rightarrow>
                    (Inr (int (parsedBytes msg)),
                     log_write ERROR ''Consuming %s message raised exception.'' self')))"

text \<open>
  The records that \<^verbatim>\<open>sipByteConsumer\<close> and \<^verbatim>\<open>consumeMessage\<close> write when they give a
  message up. A message is dropped and logged between two states of the transport when
  no dialog was added to or removed from the two dialog maps, no dialog was handed a
  message, and the log was extended, the last record written being one of these.
\<close>

definition drop_records :: "log_record list" where
  "drop_records =
     [(ERROR, ''Parse errror %s parsing message.''),
      (INFO, ''Message with no from tag is discarded.''),
      (INFO, ''Message with no Call-ID is discarded.''),
      (ERROR, ''Consuming %s message raised exception.'')]"

definition dropped_and_logged :: "'p SIPTransport \<Rightarrow> 'p SIPTransport \<Rightarrow> bool" where
  "dropped_and_logged self self' =
     (sptr_establishedDialogs self' = sptr_establishedDialogs self \<and>
      sptr_provisionalDialogs self' = sptr_provisionalDialogs self \<and>
      consume_message_calls self' = consume_message_calls self \<and>
      (\<exists>written. log_records self' = log_records self @ written \<and> written \<noteq> [] \<and>
         last written \<in> set drop_records))"

section \<open>The transaction manager\<close>

text \<open>
  \<^verbatim>\<open>sipparty/sip/transaction/manager.py\<close>, class \<^verbatim>\<open>TransactionManager\<close>. The transaction
  classes (\<^verbatim>\<open>client.py\<close>, \<^verbatim>\<open>server.py\<close>, \<^verbatim>\<open>oneshot.py\<close>) are not among the sources: a
  transaction is the class it is an instance of. \<^verbatim>\<open>Transaction.types\<close> (\<^verbatim>\<open>base.py\<close>, not
  among the sources) holds the strings that \<^verbatim>\<open>new_transaction\<close> appends to
  \<^verbatim>\<open>'_new_transaction_'\<close>; the methods \<^verbatim>\<open>_new_transaction_client\<close> and
  \<^verbatim>\<open>_new_transaction_server\<close> give two of them, and \<^verbatim>\<open>oneshot\<close> is taken to be its own
  name.
\<close>

datatype Transaction =
    InviteClientTransaction
  | NonInviteClientTransaction
  | InviteServerTransaction
  | NonInviteServerTransaction
  | OneShotTransaction

definition ttype_name :: "ttype \<Rightarrow> string" where
  "ttype_name t = (case t of client \<Rightarrow> ''client'' | server \<Rightarrow> ''server''
                   | oneshot \<Rightarrow> ''oneshot'')"

record TransactionManager =
  transactions :: "TransactionID \<rightharpoonup> Transaction"
  terminated_transactions :: "TransactionID \<rightharpoonup> Transaction"

definition TransactionManager_init :: TransactionManager where
  "TransactionManager_init = \<lparr>transactions = Map.empty, terminated_transactions = Map.empty\<rparr>"

text \<open>
  The names an instance of \<^verbatim>\<open>TransactionManager\<close> has: the attributes and methods of the
  class body, in the order of the source, and the attributes \<^verbatim>\<open>__init__\<close> sets.
  \<^verbatim>\<open>getattr(self, name)\<close> and \<^verbatim>\<open>self.name\<close> raise \<^verbatim>\<open>AttributeError\<close> for any other name.
\<close>

definition TransactionManager_attributes :: "string list" where
  "TransactionManager_attributes =
     [''lookup_sentinel'', ''transport'', ''transaction_key_for_message'', ''__init__'',
      ''transaction_for_outbound_message'', ''transaction_for_inbound_message'',
      ''__del__'', ''add_transaction_for_message'', ''lookup_transaction'',
      ''_new_transaction_client'', ''_new_transaction_server'',
      ''_new_trasaction_oneshot'', ''new_transaction'',
      ''transactions'', ''terminated_transactions'']"

definition TransactionManager_getattr :: "string \<Rightarrow> py_exception + string" where
  "TransactionManager_getattr name =
     (if name \<in> set TransactionManager_attributes then Inr name
      else Inl (AttributeError name))"

definition transaction_key_for_message :: "ttype \<Rightarrow> Message \<Rightarrow> TransactionID" where
  "transaction_key_for_message ttype msg =
     TransactionID ttype (ViaHeader_branch msg) (CseqHeader_reqtype msg)"

text \<open>
  \<^verbatim>\<open>add_transaction_for_message\<close> calls \<^verbatim>\<open>self.transaction_key_for_message(message)\<close> with
  one argument; the class method takes two (\<^verbatim>\<open>ttype, msg\<close>), so the call raises
  \<^verbatim>\<open>TypeError\<close> before the table is written.
\<close>

definition add_transaction_for_message ::
  "TransactionManager \<Rightarrow> ttype \<Rightarrow> Transaction \<Rightarrow> Message \<Rightarrow>
     py_exception option \<times> TransactionManager" where
  "add_transaction_for_message self ttype transaction message =
     (Some (TypeError
        ''transaction_key_for_message() missing 1 required positional argument''), self)"

text \<open>
  \<^verbatim>\<open>lookup_transaction\<close>: the \<^verbatim>\<open>KeyError\<close> of the failed look-up is re-raised with the
  message type added to its first argument.
\<close>

definition lookup_transaction ::
  "TransactionManager \<Rightarrow> ttype \<Rightarrow> Message \<Rightarrow> py_exception + Transaction" where
  "lookup_transaction self ttype message =
     (let tk = transaction_key_for_message ttype message in
      case transactions self tk of
        Some transaction \<Rightarrow> Inr transaction
      | None \<Rightarrow> Inl (TransactionKeyError tk (Some (msg_type message))))"

text \<open>
  The three factory methods \<^verbatim>\<open>_new_transaction_client\<close>, \<^verbatim>\<open>_new_transaction_server\<close> and
  \<^verbatim>\<open>_new_trasaction_oneshot\<close> (the name as the source spells it), without the leading
  underscore.
\<close>

definition new_transaction_client :: "Message \<Rightarrow> py_exception + Transaction" where
  "new_transaction_client msg =
     (if \<not> isrequest msg then Inl AssertionError
      else if msg_type msg = Method ''INVITE'' then Inr InviteClientTransaction
      else Inr NonInviteClientTransaction)"

definition new_transaction_server :: "Message \<Rightarrow> py_exception + Transaction" where
  "new_transaction_server msg =
     (if \<not> isrequest msg then Inl AssertionError
      else if msg_type msg = Method ''INVITE'' then Inr InviteServerTransaction
      else Inr NonInviteServerTransaction)"

definition new_trasaction_oneshot :: "Message \<Rightarrow> py_exception + Transaction" where
  "new_trasaction_oneshot msg =
     (if msg_type msg \<noteq> Method ''ACK'' then Inl AssertionError
      else Inr OneShotTransaction)"

text \<open>
  Calling the method of a given name on a message and \<open>extra\<close> further positional
  arguments. Each factory method takes the message as its one positional argument.
\<close>

definition call_factory :: "string \<Rightarrow> Message \<Rightarrow> nat \<Rightarrow> py_exception + Transaction" where
  "call_factory name msg extra =
     (if name \<notin> {''_new_transaction_client'', ''_new_transaction_server'',
                   ''_new_trasaction_oneshot''}
      then Inl (TypeError (name @ '' is not a transaction factory''))
      else if extra \<noteq> 0
      then Inl (TypeError (name @ ''() takes 2 positional arguments''))
      else if name = ''_new_transaction_client'' then new_transaction_client msg
      else if name = ''_new_transaction_server'' then new_transaction_server msg
      else new_trasaction_oneshot msg)"

text \<open>
  \<^verbatim>\<open>new_transaction(ttype, *args, **kwargs)\<close>: the assertion \<^verbatim>\<open>ttype in Transaction.types\<close>
  holds of every \<^typ>\<open>ttype\<close>; the method is looked up by its name.
\<close>

definition new_transaction :: "ttype \<Rightarrow> Message \<Rightarrow> nat \<Rightarrow> py_exception + Transaction" where
  "new_transaction ttype msg extra =
     (case TransactionManager_getattr (''_new_transaction_'' @ ttype_name ttype) of
        Inl e \<Rightarrow> Inl e
      | Inr name \<Rightarrow> call_factory name msg extra)"

text \<open>
  \<^verbatim>\<open>transaction_for_outbound_message\<close> and \<^verbatim>\<open>transaction_for_inbound_message\<close> return a
  transaction or raise; the manager is returned with the result. For a request both
  evaluate \<^verbatim>\<open>self.new_transaction_for_request\<close>; the class has no attribute of that
  name, so the second branch of the \<open>case\<close> below, the call of what the name would be
  bound to, is never taken. For a response without a server
  transaction the outbound method calls
  \<^verbatim>\<open>self.new_transaction(Transaction.types.oneshot, msg, self.transport, **kwargs)\<close>, with
  one positional argument after the message, when the status code is in the range
  200 to 299 and the CSeq method is INVITE, and re-raises the \<^verbatim>\<open>KeyError\<close> otherwise.
\<close>

definition transaction_for_outbound_message ::
  "TransactionManager \<Rightarrow> Message \<Rightarrow> (py_exception + Transaction) \<times> TransactionManager" where
  "transaction_for_outbound_message self msg =
     (if isrequest msg
      then (case TransactionManager_getattr ''new_transaction_for_request'' of
              Inl e \<Rightarrow> (Inl e, self)
            | Inr name \<Rightarrow> (call_factory name msg 1, self))
      else case lookup_transaction self server msg of
             Inr transaction \<Rightarrow> (Inr transaction, self)
           | Inl e \<Rightarrow>
               if (case msg_type msg of Code c \<Rightarrow> 200 \<le> c \<and> c < 300 | Method m \<Rightarrow> False) \<and>
                  CseqHeader_reqtype msg = ''INVITE''
               then (new_transaction oneshot msg 1, self)
               else (Inl e, self))"

definition transaction_for_inbound_message ::
  "TransactionManager \<Rightarrow> Message \<Rightarrow> (py_exception + Transaction) \<times> TransactionManager" where
  "transaction_for_inbound_message self msg =
     (if isrequest msg
      then (case TransactionManager_getattr ''new_transaction_for_request'' of
              Inl e \<Rightarrow> (Inl e, self)
            | Inr name \<Rightarrow> (call_factory name msg 1, self))
      else (lookup_transaction self client msg, self))"

section \<open>The transport: the cache of sockets\<close>

text \<open>
  \<^verbatim>\<open>sipparty/transport.py\<close>, classes \<^verbatim>\<open>ListenDescription\<close>, \<^verbatim>\<open>SocketProxy\<close> and
  \<^verbatim>\<open>Transport\<close>.

  The attributes of a description and the keys of the cache are Python values: \<^verbatim>\<open>None\<close>,
  an integer, a string or one of the four special names. Names are \<^verbatim>\<open>str\<close> values
  (\<^verbatim>\<open>IsValidTransportName\<close>), so the assertion of \<^verbatim>\<open>yield_dict_path\<close> that a key is not
  \<^verbatim>\<open>bytes\<close> holds.
\<close>

datatype special_name = NameAll | NameLANHostname | NameLoopbackAddress | SendFromAddressNameAny

datatype py_value = PyNone | PyInt int | PyStr string | PyName special_name

definition AF_INET :: py_value where "AF_INET = PyInt 2"
definition SOCK_STREAM :: py_value where "SOCK_STREAM = PyInt 1"
definition SOCK_DGRAM :: py_value where "SOCK_DGRAM = PyInt 2"


definition IsSpecialName :: "py_value \<Rightarrow> bool" where
  "IsSpecialName v = (case v of PyName n \<Rightarrow> True | _ \<Rightarrow> False)"

text \<open>
  A \<^verbatim>\<open>ListenDescription\<close> (\<^verbatim>\<open>DeepClass\<close> with the prefix \<^verbatim>\<open>_laddr_\<close>). The checks that
  \<^verbatim>\<open>DeepClass\<close> (not among the sources) runs when an attribute is set are not modelled.
\<close>

record ListenDescription =
  laddr_port :: py_value
  laddr_sock_family :: py_value
  laddr_sock_type :: py_value
  laddr_name :: py_value
  laddr_flowinfo :: py_value
  laddr_scopeid :: py_value
  laddr_port_filter :: "(py_value \<Rightarrow> bool) option"

text \<open>
  Modelled from the spec: \<^verbatim>\<open>Retainable\<close> (\<^verbatim>\<open>util.py\<close>, not among the sources), the base
  class of \<^verbatim>\<open>SocketProxy\<close> with \<^verbatim>\<open>retain\<close>, \<^verbatim>\<open>release\<close> and \<^verbatim>\<open>is_retained\<close>. The spec: a
  socket handle has a retain count; it is retained on every successful look-up, released
  by its callers, and removed and closed when the count reaches zero.
\<close>

record SocketProxy =
  sck_local_address :: ListenDescription
  sck_socket :: nat
  sck_is_connected :: bool
  retain_count :: int

definition retain :: "SocketProxy \<Rightarrow> SocketProxy" where
  "retain sck = sck\<lparr>retain_count := retain_count sck + 1\<rparr>"

definition release :: "SocketProxy \<Rightarrow> SocketProxy" where
  "release sck = sck\<lparr>retain_count := retain_count sck - 1\<rparr>"

definition is_retained :: "SocketProxy \<Rightarrow> bool" where
  "is_retained sck = (0 < retain_count sck)"

text \<open>
  The cache is a dictionary of dictionaries with socket proxies at the leaves. A
  dictionary is the list of its items in iteration order, with no key twice
  (\<open>wf_cache\<close>); storing under a key that is present replaces the value in place, storing
  under a new key appends the item. Every dictionary of the cache is the value of one
  key of one parent: a reference to a nested dictionary is the list of keys that leads
  to it from the root, and a change made through the reference is a change at that
  place of the tree.
\<close>

datatype cache = Obj SocketProxy | Dict "(py_value \<times> cache) list"

fun dict_set :: "py_value \<Rightarrow> cache \<Rightarrow> (py_value \<times> cache) list \<Rightarrow> (py_value \<times> cache) list" where
  "dict_set k v [] = [(k, v)]"
| "dict_set k v ((k', v') # items) =
     (if k' = k then (k, v) # items else (k', v') # dict_set k v items)"

fun dict_del :: "py_value \<Rightarrow> (py_value \<times> cache) list \<Rightarrow> (py_value \<times> cache) list" where
  "dict_del k [] = []"
| "dict_del k ((k', v') # items) = (if k' = k then items else (k', v') # dict_del k items)"

fun wf_cache :: "cache \<Rightarrow> bool" where
  "wf_cache (Obj sck) = True"
| "wf_cache (Dict items) =
     (distinct (map fst items) \<and> list_all (\<lambda>kv. wf_cache (snd kv)) items)"

text \<open>\<^verbatim>\<open>yield_vals\<close>: the socket proxies of a cache, in iteration order.\<close>

fun yield_vals :: "cache \<Rightarrow> SocketProxy list" where
  "yield_vals (Obj sck) = [sck]"
| "yield_vals (Dict items) = concat (map (\<lambda>kv. yield_vals (snd kv)) items)"

text \<open>
  The object that a list of keys leads to, \<^verbatim>\<open>cache[k1][k2]\<dots>\<close>; \<open>None\<close> where a key is
  missing or a socket proxy is reached before the keys end.
\<close>

fun lookup_path :: "cache \<Rightarrow> py_value list \<Rightarrow> cache option" where
  "lookup_path c [] = Some c"
| "lookup_path (Obj sck) (key # keys) = None"
| "lookup_path (Dict items) (key # keys) =
     (case map_of items key of None \<Rightarrow> None | Some obj \<Rightarrow> lookup_path obj keys)"

text \<open>
  The finders of a find tuple. \<^verbatim>\<open>convert_listen_description_into_find_tuple\<close> pairs the
  family and the type with \<^verbatim>\<open>lambda _dict, key: (key, {})\<close>, the name with
  \<^verbatim>\<open>find_suitable_name\<close>, the port with \<^verbatim>\<open>find_suitable_port\<close> (a closure over the
  description's port filter), the flow information and the scope identifier with
  \<^verbatim>\<open>find_suitable_flowinfo_or_scopeid\<close>;
  \<^verbatim>\<open>convert_connected_address_description_into_find_tuple\<close> pairs the remote name and
  port with \<^verbatim>\<open>None\<close>. A finder returns a key and an object, or \<^verbatim>\<open>(None, None)\<close>.
\<close>

datatype finder =
    new_dict_finder
  | find_suitable_name
  | find_suitable_port "(py_value \<Rightarrow> bool) option"
  | find_suitable_flowinfo_or_scopeid
  | no_finder

fun first_item :: "(py_value \<times> cache) list \<Rightarrow> (py_value \<times> cache) option" where
  "first_item [] = None"
| "first_item (item # items) = Some item"

fun first_port :: "(py_value \<Rightarrow> bool) option \<Rightarrow> (py_value \<times> cache) list \<Rightarrow>
    (py_value \<times> cache) option" where
  "first_port pfilter [] = None"
| "first_port pfilter ((port, next_dict) # items) =
     (if (case pfilter of None \<Rightarrow> True | Some f \<Rightarrow> f port) then Some (port, next_dict)
      else first_port pfilter items)"

fun call_finder :: "finder \<Rightarrow> (py_value \<times> cache) list \<Rightarrow> py_value \<Rightarrow>
    (py_value \<times> cache) option" where
  "call_finder new_dict_finder pdict key = Some (key, Dict [])"
| "call_finder find_suitable_name pdict name =
     (if name \<noteq> PyName SendFromAddressNameAny then None else first_item pdict)"
| "call_finder (find_suitable_port pfilter) pdict port =
     (if port \<noteq> PyInt 0 then None else first_port pfilter pdict)"
| "call_finder find_suitable_flowinfo_or_scopeid pdict val =
     (if val \<noteq> PyNone then None else first_item pdict)"
| "call_finder no_finder pdict key = None"

definition convert_listen_description_into_find_tuple ::
  "ListenDescription \<Rightarrow> (py_value \<times> finder) list" where
  "convert_listen_description_into_find_tuple listen_address =
     (let rtup =
        [(laddr_sock_family listen_address, new_dict_finder),
         (laddr_sock_type listen_address, new_dict_finder),
         (laddr_name listen_address, find_suitable_name),
         (laddr_port listen_address, find_suitable_port (laddr_port_filter listen_address)),
         (laddr_flowinfo listen_address, find_suitable_flowinfo_or_scopeid),
         (laddr_scopeid listen_address, find_suitable_flowinfo_or_scopeid)]
      in if laddr_sock_family listen_address = AF_INET then butlast (butlast rtup) else rtup)"

text \<open>
  \<^verbatim>\<open>yield_dict_path\<close>, run to its end as the list comprehension of \<^verbatim>\<open>find_cached_object\<close>
  does: the list of the pairs it yields, or the exception it raises, and the dictionary
  as the walk leaves it (\<^verbatim>\<open>next_dict[key] = obj\<close> stores what a finder returned). Each
  pair holds a reference, so the object of a pair is the object as it is when the walk is
  over. Where keys remain and the walk stands on a socket proxy, \<^verbatim>\<open>next_dict.keys()\<close>
  raises \<^verbatim>\<open>AttributeError\<close>.
\<close>

fun yield_dict_path :: "cache \<Rightarrow> (py_value \<times> finder) list \<Rightarrow>
    (py_exception + (py_value \<times> cache) list) \<times> cache" where
  "yield_dict_path next_dict [] = (Inr [], next_dict)"
| "yield_dict_path (Obj sck) ((key, finder) # lookups) = (Inl (AttributeError ''keys''), Obj sck)"
| "yield_dict_path (Dict items) ((key, finder) # lookups) =
     (case (case map_of items key of
              Some obj \<Rightarrow> Some (key, obj)
            | None \<Rightarrow> call_finder finder items key) of
        None \<Rightarrow> (Inr [], Dict items)
      | Some (key', obj) \<Rightarrow>
          (case yield_dict_path obj lookups of
             (Inl e, obj') \<Rightarrow> (Inl e, Dict (dict_set key' obj' items))
           | (Inr path, obj') \<Rightarrow> (Inr ((key', obj') # path), Dict (dict_set key' obj' items))))"

text \<open>
  \<^verbatim>\<open>find_cached_object\<close> returns the path and the object found, or the path and \<^verbatim>\<open>None\<close>;
  the cache as the walk leaves it is returned with the result.
\<close>

definition find_cached_object :: "cache \<Rightarrow> (py_value \<times> finder) list \<Rightarrow>
    (py_exception + (py_value \<times> cache) list \<times> cache option) \<times> cache" where
  "find_cached_object cache_dict find_tuple =
     (let full_path_len = length find_tuple in
      case yield_dict_path cache_dict find_tuple of
        (Inl e, cache_dict') \<Rightarrow> (Inl e, cache_dict')
      | (Inr path, cache_dict') \<Rightarrow>
          if length path = 7 \<and> full_path_len = 8 then (Inl AssertionError, cache_dict')
          else if \<not> length path \<le> full_path_len then (Inl AssertionError, cache_dict')
          else if length path = full_path_len
          then (case path of
                  [] \<Rightarrow> (Inl (Raised ''IndexError''), cache_dict')
                | _ \<Rightarrow> (Inr (path, Some (snd (last path))), cache_dict'))
          else (Inr (path, None), cache_dict'))"

text \<open>
  \<^verbatim>\<open>insert_cached_object\<close>: dictionaries are made for the keys that are missing. Reading
  or storing through a socket proxy, or the last key of an empty path, raises; nothing
  has been stored by then, since every key passed was present.
\<close>

fun insert_cached_object :: "cache \<Rightarrow> py_value list \<Rightarrow> cache \<Rightarrow> py_exception + cache" where
  "insert_cached_object root [] obj = Inl (Raised ''IndexError'')"
| "insert_cached_object (Obj sck) [key] obj =
     Inl (TypeError ''object does not support item assignment'')"
| "insert_cached_object (Obj sck) (key # keys) obj = Inl (AttributeError ''get'')"
| "insert_cached_object (Dict items) [key] obj = Inr (Dict (dict_set key obj items))"
| "insert_cached_object (Dict items) (key # keys) obj =
     (let new_dict = (case map_of items key of Some d \<Rightarrow> d | None \<Rightarrow> Dict [])
      in case insert_cached_object new_dict keys obj of
           Inl e \<Rightarrow> Inl e
         | Inr new_dict' \<Rightarrow> Inr (Dict (dict_set key new_dict' items)))"

text \<open>
  A change made through a reference: \<open>modify_at keys f\<close> applies \<open>f\<close> to the object that
  the keys lead to.
\<close>

primrec modify_at :: "py_value list \<Rightarrow> (cache \<Rightarrow> cache) \<Rightarrow> cache \<Rightarrow> cache" where
  "modify_at [] f = f"
| "modify_at (key # keys) f =
     (\<lambda>c. case c of
            Obj sck \<Rightarrow> Obj sck
          | Dict items \<Rightarrow>
              Dict (map (\<lambda>kv. if fst kv = key then (fst kv, modify_at keys f (snd kv)) else kv)
                     items))"







text \<open>
  The state of a \<^verbatim>\<open>Transport\<close>: the two caches. The retry thread and its file
  descriptors are not modelled.
\<close>

record Transport =
  tp_listen_sockets :: cache
  tp_connected_sockets :: cache


text \<open>
  \<^verbatim>\<open>_add_socket_proxy\<close> with the default \<^verbatim>\<open>path=()\<close>, as \<^verbatim>\<open>add_listen_socket_proxy\<close> calls
  it: the proxy is retained and stored under the keys of the find tuple.
\<close>

definition add_listen_socket_proxy ::
  "Transport \<Rightarrow> SocketProxy \<Rightarrow> py_exception option \<times> Transport" where
  "add_listen_socket_proxy self listen_socket_proxy =
     (let tpl = convert_listen_description_into_find_tuple
                  (sck_local_address listen_socket_proxy);
          keys = map fst tpl
      in case insert_cached_object (tp_listen_sockets self) keys
                (Obj (retain listen_socket_proxy)) of
           Inl e \<Rightarrow> (Some e, self)
         | Inr root \<Rightarrow> (None, self\<lparr>tp_listen_sockets := root\<rparr>))"







text \<open>
  \<^verbatim>\<open>release_listen_address\<close>: the socket found is released through the reference the
  path holds; when it is no longer retained, its key is deleted from the dictionary that
  the last but one pair of the path refers to.
\<close>

definition release_listen_address ::
  "Transport \<Rightarrow> ListenDescription \<Rightarrow> py_exception option \<times> Transport" where
  "release_listen_address self listen_address =
     (case find_cached_object (tp_listen_sockets self)
             (convert_listen_description_into_find_tuple listen_address) of
        (Inl e, cache') \<Rightarrow> (Some e, self\<lparr>tp_listen_sockets := cache'\<rparr>)
      | (Inr (path, None), cache') \<Rightarrow>
          (Some (KeyError ''%r was not a known ListenDescription.''),
           self\<lparr>tp_listen_sockets := cache'\<rparr>)
      | (Inr (path, Some (Dict items)), cache') \<Rightarrow>
          (Some (AttributeError ''release''), self\<lparr>tp_listen_sockets := cache'\<rparr>)
      | (Inr (path, Some (Obj lsck)), cache') \<Rightarrow>
          (let keys = map fst path;
               released = modify_at keys (\<lambda>c. Obj (release lsck)) cache'
           in if \<not> is_retained (release lsck)
              then if length path < 2
                   then (Some (Raised ''IndexError''), self\<lparr>tp_listen_sockets := released\<rparr>)
                   else (None,
                         self\<lparr>tp_listen_sockets :=
                           modify_at (butlast keys)
                             (\<lambda>c. case c of Dict items \<Rightarrow> Dict (dict_del (last keys) items)
                                   | Obj sck \<Rightarrow> Obj sck)
                             released\<rparr>)
              else (None, self\<lparr>tp_listen_sockets := released\<rparr>)))"

section \<open>Example inputs\<close>

text \<open>
  Concrete collaborators, messages and transports at which the theorems below are
  instantiated. The example parser accepts two byte strings, an in-dialog \<^verbatim>\<open>BYE\<close> and an
  \<^verbatim>\<open>OPTIONS\<close> request without a From tag, and rejects every other with \<^verbatim>\<open>ParseError\<close>; provisional dialog identifiers are pairs of a
  Call-ID and a local tag.
\<close>

definition example_bye :: Message where
  "example_bye =
     \<lparr>msg_type = Method ''BYE'', FromHeader_tag = Some ''a1'', ToHeader_tag = Some ''b2'',
      Call_IDHeader = Some ''c1'', ToHeader_aor = ''bob@biloxi.com'',
      ViaHeader_branch = ''z9hG4bK2'', CseqHeader_reqtype = ''BYE'', parsedBytes = 11\<rparr>"

definition example_bye_bytes :: bytes where
  "example_bye_bytes = ''BYE bob'' @ eoleol"

definition example_options :: Message where
  "example_options =
     \<lparr>msg_type = Method ''OPTIONS'', FromHeader_tag = None, ToHeader_tag = None,
      Call_IDHeader = Some ''c9'', ToHeader_aor = ''bob@biloxi.com'',
      ViaHeader_branch = ''z9hG4bK3'', CseqHeader_reqtype = ''OPTIONS'', parsedBytes = 11\<rparr>"

definition example_options_bytes :: bytes where
  "example_options_bytes = ''OPTIONS'' @ eoleol"

definition example_malformed_bytes :: bytes where
  "example_malformed_bytes = ''bad'' @ eoleol"

definition example_collaborators :: "(string \<times> string) collaborators" where
  "example_collaborators =
     \<lparr>Message_Parse = (\<lambda>data. if data = example_bye_bytes then Inr example_bye
                               else if data = example_options_bytes then Inr example_options
                               else Inl ParseError),
      new_dialog_from_request = (\<lambda>hdlr msg. Inr (Some 7)),
      consume_message = (\<lambda>dlg msg. None),
      provisionalDialogID = (\<lambda>dlg. (''c1'', ''a1'')),
      dialogID = (\<lambda>dlg. None),
      ProvisionalDialogIDFromEstablishedID =
        (\<lambda>did. case did of EstablishedDialogID call_id local_tag remote_tag \<Rightarrow>
                  (call_id, local_tag))\<rparr>"

definition example_transport :: "(string \<times> string) SIPTransport" where
  "example_transport =
     SIPTransport_init
       \<lparr>sptr_establishedDialogs := [EstablishedDialogID ''c1'' ''b2'' ''a1'' \<mapsto> 7],
        sptr_dialogHandlers := [''bob@biloxi.com'' \<mapsto> AORHandler_instance 1]\<rparr>"





text \<open>
  An outbound INVITE request and an outbound 200 response to an INVITE, and a manager
  that holds one server transaction, for another branch.
\<close>

definition example_invite :: Message where
  "example_invite =
     \<lparr>msg_type = Method ''INVITE'', FromHeader_tag = Some ''a1'', ToHeader_tag = None,
      Call_IDHeader = Some ''c1'', ToHeader_aor = ''bob@biloxi.com'',
      ViaHeader_branch = ''z9hG4bK1'', CseqHeader_reqtype = ''INVITE'', parsedBytes = 0\<rparr>"

definition example_200_invite :: Message where
  "example_200_invite =
     \<lparr>msg_type = Code 200, FromHeader_tag = Some ''a1'', ToHeader_tag = Some ''b2'',
      Call_IDHeader = Some ''c1'', ToHeader_aor = ''bob@biloxi.com'',
      ViaHeader_branch = ''z9hG4bK1'', CseqHeader_reqtype = ''INVITE'', parsedBytes = 0\<rparr>"

definition example_404_invite :: Message where
  "example_404_invite =
     \<lparr>msg_type = Code 404, FromHeader_tag = Some ''a1'', ToHeader_tag = Some ''b2'',
      Call_IDHeader = Some ''c1'', ToHeader_aor = ''bob@biloxi.com'',
      ViaHeader_branch = ''z9hG4bK1'', CseqHeader_reqtype = ''INVITE'', parsedBytes = 0\<rparr>"

definition example_manager :: TransactionManager where
  "example_manager =
     TransactionManager_init
       \<lparr>transactions :=
          [TransactionID server ''z9hG4bK7'' ''BYE'' \<mapsto> NonInviteServerTransaction]\<rparr>"


definition example_laddr :: ListenDescription where
  "example_laddr =
     \<lparr>laddr_port = PyInt 5060, laddr_sock_family = AF_INET, laddr_sock_type = SOCK_DGRAM,
      laddr_name = PyStr ''127.0.0.1'', laddr_flowinfo = PyNone, laddr_scopeid = PyNone,
      laddr_port_filter = None\<rparr>"

definition example_listen_socket :: SocketProxy where
  "example_listen_socket =
     \<lparr>sck_local_address = example_laddr, sck_socket = 3, sck_is_connected = False,
      retain_count = 1\<rparr>"

definition example_listen_transport :: Transport where
  "example_listen_transport =
     \<lparr>tp_listen_sockets =
        Dict [(AF_INET,
               Dict [(SOCK_DGRAM,
                      Dict [(PyStr ''127.0.0.1'',
                             Dict [(PyInt 5060, Obj example_listen_socket)])])])],
      tp_connected_sockets = Dict []\<rparr>"

text \<open>A new proxy of a second socket, bound to port 5061 of the same address.\<close>

definition example_second_socket :: SocketProxy where
  "example_second_socket =
     \<lparr>sck_local_address = example_laddr\<lparr>laddr_port := PyInt 5061\<rparr>, sck_socket = 4,
      sck_is_connected = False, retain_count = 0\<rparr>"

text \<open>The transport that listens on the same socket, retained a second time.\<close>

definition example_shared_transport :: Transport where
  "example_shared_transport =
     \<lparr>tp_listen_sockets =
        Dict [(AF_INET,
               Dict [(SOCK_DGRAM,
                      Dict [(PyStr ''127.0.0.1'',
                             Dict [(PyInt 5060, Obj (retain example_listen_socket))])])])],
      tp_connected_sockets = Dict []\<rparr>"

section \<open>Properties of the retry thread\<close>

lemma scan_enumerate:
  "case scan_retryTimes c (enumerate k xs) of
     Return \<Rightarrow> c \<in> set xs
   | Break ii \<Rightarrow> k \<le> ii \<and> ii < k + length xs \<and> (\<forall>y \<in> set (take (ii - k) xs). y < c) \<and> c < xs ! (ii - k)
   | Exhausted \<Rightarrow> (\<forall>y \<in> set xs. y < c)"
proof (induction xs arbitrary: k)
  case Nil
  then show ?case by simp
next
  case (Cons x xs)
  show ?case
  proof (cases "c < x")
    case True
    then show ?thesis by simp
  next
    case False
    show ?thesis
    proof (cases "c = x")
      case True
      then show ?thesis by simp
    next
      case ne: False
      with False have lt: "x < c" by simp
      have step: "scan_retryTimes c (enumerate k (x # xs)) = scan_retryTimes c (enumerate (Suc k) xs)"
        using False ne by simp
      show ?thesis
      proof (cases "scan_retryTimes c (enumerate (Suc k) xs)")
        case (Break ii)
        with Cons.IH[of "Suc k"] have h: "Suc k \<le> ii" "ii < Suc k + length xs"
          "\<forall>y \<in> set (take (ii - Suc k) xs). y < c" "c < xs ! (ii - Suc k)" by simp_all
        from h(1) have e: "ii - k = Suc (ii - Suc k)" by simp
        show ?thesis unfolding step Break using h lt by (simp add: e)
      next
        case Return
        with Cons.IH[of "Suc k"] show ?thesis unfolding step by simp
      next
        case Exhausted
        with Cons.IH[of "Suc k"] lt show ?thesis unfolding step by simp
      qed
    qed
  qed
qed

lemma sorted_list_insert:
  assumes "sorted xs" "i \<le> length xs" "\<forall>y \<in> set (take i xs). y < c" "i < length xs \<longrightarrow> c < xs ! i"
  shows "sorted (list_insert i c xs)"
proof -
  have s: "sorted (take i xs)" "sorted (drop i xs)" using assms(1) by (simp_all add: sorted_wrt_take sorted_wrt_drop)
  have "\<forall>z \<in> set (drop i xs). c \<le> z"
  proof
    fix z assume z: "z \<in> set (drop i xs)"
    then have ne: "drop i xs \<noteq> []" by auto
    then have il: "i < length xs" by simp
    with assms(4) have "c < xs ! i" by simp
    moreover have "drop i xs = xs ! i # drop (Suc i) xs" using il by (simp add: Cons_nth_drop_Suc)
    ultimately show "c \<le> z" using s(2) z by auto
  qed
  moreover have "sorted (take i xs @ drop i xs)" using assms(1) by simp
  then have "\<forall>x \<in> set (take i xs). \<forall>y \<in> set (drop i xs). x \<le> y"
    unfolding sorted_append by blast
  ultimately show ?thesis using assms(3) s unfolding list_insert_def
    by (auto simp: sorted_append less_imp_le)
qed

lemma sorted_addRetryTime:
  assumes "sorted (rthr_retryTimes self)"
  shows "sorted (rthr_retryTimes (addRetryTime self ctime))"
proof -
  let ?rts = "rthr_retryTimes self"
  have z: "zip [0..<length ?rts] ?rts = enumerate 0 ?rts" by (simp add: enumerate_eq_zip)
  show ?thesis
  proof (cases "scan_retryTimes ctime (enumerate 0 ?rts)")
    case (Break ii)
    with scan_enumerate[where c=ctime and k=0 and xs="?rts"] have "ii < length ?rts"
      "\<forall>y \<in> set (take ii ?rts). y < ctime" "ctime < ?rts ! ii" by simp_all
    then have "sorted (list_insert ii ctime ?rts)"
      using assms by (intro sorted_list_insert) simp_all
    then show ?thesis using Break by (simp add: addRetryTime_def z Let_def)
  next
    case Return
    then show ?thesis using assms by (simp add: addRetryTime_def z Let_def)
  next
    case Exhausted
    with scan_enumerate[where c=ctime and k=0 and xs="?rts"] have "\<forall>y \<in> set ?rts. y < ctime" by simp
    then have "sorted (list_insert (length ?rts) ctime ?rts)"
      using assms by (intro sorted_list_insert) simp_all
    then show ?thesis using Exhausted by (simp add: addRetryTime_def z Let_def)
  qed
qed

lemma scan_present:
  "sorted xs \<Longrightarrow> c \<in> set xs \<Longrightarrow> scan_retryTimes c (enumerate k xs) = Return"
proof (induction xs arbitrary: k)
  case Nil
  then show ?case by simp
next
  case (Cons x xs)
  then show ?case by (cases "c = x") auto
qed

lemma addRetryTime_present:
  assumes "sorted (rthr_retryTimes self)" "ctime \<in> set (rthr_retryTimes self)"
  shows "addRetryTime self ctime = self"
  using scan_present[OF assms, where k=0] by (simp add: addRetryTime_def enumerate_eq_zip Let_def)

lemma sorted_addRetryTime_calls:
  "sorted (rthr_retryTimes self) \<Longrightarrow> sorted (rthr_retryTimes (foldl addRetryTime self ts))"
  by (induction ts arbitrary: self) (simp_all add: sorted_addRetryTime)



text \<open>
  Claim C1. After any sequence of \<^verbatim>\<open>addRetryTime\<close> calls on a new \<^verbatim>\<open>RetryThread\<close> the list of
  retry times is sorted in ascending order, and a call with a time that is in the list
  returns the thread as it was: the list is unchanged (and no wake-up byte is sent).
\<close>

theorem addRetryTime_sorted_and_deduplicated:
  fixes ts :: "'a::linorder list"
  shows "sorted (rthr_retryTimes (foldl addRetryTime RetryThread_init ts)) \<and>
     (t \<in> set (rthr_retryTimes (foldl addRetryTime RetryThread_init ts)) \<longrightarrow>
        addRetryTime (foldl addRetryTime RetryThread_init ts) t =
          foldl addRetryTime RetryThread_init ts)"
proof -
  have "sorted (rthr_retryTimes (RetryThread_init :: 'a RetryThread))"
    by (simp add: RetryThread_init_def)
  then have "sorted (rthr_retryTimes (foldl addRetryTime RetryThread_init ts))"
    by (rule sorted_addRetryTime_calls)
  then show ?thesis by (simp add: addRetryTime_present)
qed

theorem addRetryTime_sorted_and_deduplicated_witness:
  "rthr_retryTimes (foldl addRetryTime RetryThread_init [5, 1, 3 :: int]) = [1, 3, 5] \<and>
   sorted (rthr_retryTimes (foldl addRetryTime RetryThread_init [5, 1, 3 :: int])) \<and>
   (3 :: int) \<in> set (rthr_retryTimes (foldl addRetryTime RetryThread_init [5, 1, 3])) \<and>
   addRetryTime (foldl addRetryTime RetryThread_init [5, 1, 3 :: int]) 3 =
     foldl addRetryTime RetryThread_init [5, 1, 3]"
proof -
  have e: "rthr_retryTimes (foldl addRetryTime RetryThread_init [5, 1, 3 :: int]) = [1, 3, 5]"
    by (simp add: addRetryTime_def RetryThread_init_def list_insert_def upt_rec Let_def)
  from addRetryTime_sorted_and_deduplicated[of "[5, 1, 3 :: int]" 3] e
  show ?thesis by simp
qed

section \<open>Properties of the message demultiplexer\<close>




lemma sipByteConsumer_no_eoleol:
  "bytes_find data eoleol = - 1 \<Longrightarrow> sipByteConsumer env self data = (Inr 0, self)"
  by (simp add: sipByteConsumer_def)

lemma sipByteConsumer_ParseError:
  "bytes_find data eoleol \<noteq> - 1 \<Longrightarrow> Message_Parse env data = Inl ParseError \<Longrightarrow>
   sipByteConsumer env self data =
     (Inr 0, log_write ERROR ''Parse errror %s parsing message.'' self)"
  by (simp add: sipByteConsumer_def)

lemma sipByteConsumer_parsed:
  "bytes_find data eoleol \<noteq> - 1 \<Longrightarrow> Message_Parse env data = Inr msg \<Longrightarrow>
   sipByteConsumer env self data =
     (case consumeMessage env (log_write INFO ''Message parsed.'' self) msg of
        (None, self') \<Rightarrow> (Inr (int (parsedBytes msg)), self')
      | (Some e, self') \<Rightarrow>
          (Inr (int (parsedBytes msg)),
           log_write ERROR ''Consuming %s message raised exception.'' self'))"
  by (simp add: sipByteConsumer_def)







lemma example_malformed_find: "bytes_find example_malformed_bytes eoleol = 3"
  by (simp add: bytes_find_def example_malformed_bytes_def eoleol_def)

lemma example_bye_find: "bytes_find example_bye_bytes eoleol = 7"
  by (simp add: bytes_find_def example_bye_bytes_def eoleol_def)

lemma example_malformed_Parse:
  "Message_Parse example_collaborators example_malformed_bytes = Inl ParseError"
  by (simp add: example_collaborators_def example_malformed_bytes_def example_bye_bytes_def
      example_options_bytes_def)

lemma example_bye_Parse:
  "Message_Parse example_collaborators example_bye_bytes = Inr example_bye"
  by (simp add: example_collaborators_def)

lemma example_Parse_only_ParseError:
  "\<forall>e. Message_Parse example_collaborators data = Inl e \<longrightarrow> e = ParseError"
  by (simp add: example_collaborators_def)















lemma consumeMessage_in_dialog:
  assumes "msg_type msg \<noteq> Method ''ACK''"
    and "FromHeader_tag msg = Some from_tag"
    and "Call_IDHeader msg = Some call_id"
    and "call_id \<noteq> []"
    and "ToHeader_tag msg = Some to_tag"
  shows "consumeMessage env self msg =
     (let did = (if isresponse msg then EstablishedDialogID call_id from_tag to_tag
                 else EstablishedDialogID call_id to_tag from_tag);
          recorded = self\<lparr>sptr_messages := sptr_messages self @ [msg]\<rparr>;
          forwarded = (\<lambda>dlg. (consume_message env dlg msg,
             recorded\<lparr>consume_message_calls := consume_message_calls self @ [(dlg, msg)]\<rparr>))
      in case sptr_establishedDialogs self did of
           Some dlg \<Rightarrow> forwarded dlg
         | None \<Rightarrow>
             (case sptr_provisionalDialogs self
                     (ProvisionalDialogIDFromEstablishedID env did) of
                Some dlg \<Rightarrow> forwarded dlg
              | None \<Rightarrow>
                  (Some AssertionError,
                   log_write WARNING
                     ''Unable to find a dialog for message with dialog ID %r'' recorded)))"
  using assms
  by (simp add: consumeMessage_def consumeInDialogMessage_def call_consume_message_def
      log_write_def Let_def split: option.splits)

text \<open>
  Claim C4. For a message that is not an ACK, with a From tag, a non-empty Call-ID and a
  To tag, \<^verbatim>\<open>consumeMessage\<close> records the message and computes the established dialog
  identifier from the Call-ID and the tags (local tag the To tag and remote tag the From
  tag for a request, the reverse for a response). It hands the message to the dialog the
  established map holds under that identifier; failing that, to the dialog the provisional
  map holds under the corresponding provisional identifier; failing that, it logs a
  warning and stops at the failed assertion, handing the message to no dialog. In each
  case the two dialog maps are as they were.
\<close>

theorem consumeMessage_in_dialog_routing:
  assumes "msg_type msg \<noteq> Method ''ACK''"
    and "FromHeader_tag msg = Some from_tag"
    and "Call_IDHeader msg = Some call_id"
    and "call_id \<noteq> []"
    and "ToHeader_tag msg = Some to_tag"
  shows "let did = (if isresponse msg then EstablishedDialogID call_id from_tag to_tag
                    else EstablishedDialogID call_id to_tag from_tag);
             recorded = self\<lparr>sptr_messages := sptr_messages self @ [msg]\<rparr>;
             forwarded = (\<lambda>dlg. (consume_message env dlg msg,
                recorded\<lparr>consume_message_calls := consume_message_calls self @ [(dlg, msg)]\<rparr>))
         in consumeMessage env self msg =
              (case sptr_establishedDialogs self did of
                 Some dlg \<Rightarrow> forwarded dlg
               | None \<Rightarrow>
                   (case sptr_provisionalDialogs self
                           (ProvisionalDialogIDFromEstablishedID env did) of
                      Some dlg \<Rightarrow> forwarded dlg
                    | None \<Rightarrow>
                        (Some AssertionError,
                         log_write WARNING
                           ''Unable to find a dialog for message with dialog ID %r''
                           recorded))) \<and>
            sptr_establishedDialogs (snd (consumeMessage env self msg)) =
              sptr_establishedDialogs self \<and>
            sptr_provisionalDialogs (snd (consumeMessage env self msg)) =
              sptr_provisionalDialogs self"
  unfolding consumeMessage_in_dialog[OF assms]
  by (simp add: log_write_def Let_def split: option.splits)

theorem consumeMessage_in_dialog_routing_witness:
  "msg_type example_bye \<noteq> Method ''ACK'' \<and> FromHeader_tag example_bye = Some ''a1'' \<and>
   Call_IDHeader example_bye = Some ''c1'' \<and> ToHeader_tag example_bye = Some ''b2'' \<and>
   \<not> isresponse example_bye \<and>
   sptr_establishedDialogs example_transport (EstablishedDialogID ''c1'' ''b2'' ''a1'') =
     Some 7 \<and>
   consumeMessage example_collaborators example_transport example_bye =
     (None,
      example_transport
        \<lparr>sptr_messages := [example_bye], consume_message_calls := [(7, example_bye)]\<rparr>)"
proof -
  have h: "msg_type example_bye \<noteq> Method ''ACK''" "FromHeader_tag example_bye = Some ''a1''"
    "Call_IDHeader example_bye = Some ''c1''" "''c1'' \<noteq> []"
    "ToHeader_tag example_bye = Some ''b2''"
    by (simp_all add: example_bye_def)
  have r: "\<not> isresponse example_bye" by (simp add: isresponse_def example_bye_def)
  have e: "sptr_establishedDialogs example_transport (EstablishedDialogID ''c1'' ''b2'' ''a1'') =
     Some 7" "sptr_messages example_transport = []" "consume_message_calls example_transport = []"
    by (simp_all add: example_transport_def SIPTransport_init_def)
  have c: "consume_message example_collaborators 7 example_bye = None"
    by (simp add: example_collaborators_def)
  from consumeMessage_in_dialog_routing[OF h, of example_transport example_collaborators]
  show ?thesis using h r e c by (simp add: Let_def)
qed

lemma consumeMessage_missing_headers:
  assumes "msg_type msg \<noteq> Method ''ACK''"
    and "FromHeader_tag msg = None \<or> Call_IDHeader msg = None \<or> Call_IDHeader msg = Some []"
  shows "\<exists>r self' written. consumeMessage env self msg = (r, self') \<and>
           sptr_establishedDialogs self' = sptr_establishedDialogs self \<and>
           sptr_provisionalDialogs self' = sptr_provisionalDialogs self \<and>
           consume_message_calls self' = consume_message_calls self \<and>
           log_records self' = log_records self @ written \<and>
           (r = None \<longrightarrow> written \<noteq> [] \<and> last written \<in> set drop_records)"
proof (cases "FromHeader_tag msg = None")
  case True
  then show ?thesis using assms(1)
    by (simp add: consumeMessage_def log_write_def Let_def drop_records_def)
next
  case False
  with assms(2) have c: "Call_IDHeader msg = None \<or> Call_IDHeader msg = Some []" by simp
  then show ?thesis
  proof
    assume "Call_IDHeader msg = None"
    then show ?thesis using assms(1) False by (auto simp: consumeMessage_def Let_def)
  next
    assume "Call_IDHeader msg = Some []"
    then show ?thesis using assms(1) False
      by (auto simp: consumeMessage_def log_write_def Let_def drop_records_def)
  qed
qed

lemma consumeMessage_unroutable:
  assumes "msg_type msg \<noteq> Method ''ACK''"
    and "FromHeader_tag msg = Some from_tag"
    and "Call_IDHeader msg = Some call_id"
    and "call_id \<noteq> []"
    and "ToHeader_tag msg = Some to_tag"
    and "sptr_establishedDialogs self
           (if isresponse msg then EstablishedDialogID call_id from_tag to_tag
            else EstablishedDialogID call_id to_tag from_tag) = None"
    and "sptr_provisionalDialogs self
           (ProvisionalDialogIDFromEstablishedID env
             (if isresponse msg then EstablishedDialogID call_id from_tag to_tag
              else EstablishedDialogID call_id to_tag from_tag)) = None"
  shows "consumeMessage env self msg =
     (Some AssertionError,
      log_write WARNING ''Unable to find a dialog for message with dialog ID %r''
        (self\<lparr>sptr_messages := sptr_messages self @ [msg]\<rparr>))"
  unfolding consumeMessage_in_dialog[OF assms(1-5)] using assms(6,7)
  by (simp add: Let_def)

lemma sipByteConsumer_parsed_dropped:
  assumes "bytes_find data eoleol \<noteq> - 1" and "Message_Parse env data = Inr msg"
    and "consumeMessage env (log_write INFO ''Message parsed.'' self) msg = (r, self2)"
    and "sptr_establishedDialogs self2 = sptr_establishedDialogs self"
    and "sptr_provisionalDialogs self2 = sptr_provisionalDialogs self"
    and "consume_message_calls self2 = consume_message_calls self"
    and "log_records self2 = log_records self @ written"
    and "r = None \<longrightarrow> written \<noteq> [] \<and> last written \<in> set drop_records"
  shows "\<exists>self'. sipByteConsumer env self data = (Inr (int (parsedBytes msg)), self') \<and>
           dropped_and_logged self self'"
proof (cases r)
  case None
  then have "sipByteConsumer env self data = (Inr (int (parsedBytes msg)), self2)"
    using assms(1-3) by (simp add: sipByteConsumer_parsed)
  moreover have "dropped_and_logged self self2"
    unfolding dropped_and_logged_def using assms(4-8) None by blast
  ultimately show ?thesis by blast
next
  case (Some e)
  let ?self' = "log_write ERROR ''Consuming %s message raised exception.'' self2"
  have "sipByteConsumer env self data = (Inr (int (parsedBytes msg)), ?self')"
    using assms(1-3) Some by (simp add: sipByteConsumer_parsed)
  moreover have "log_records ?self' =
      log_records self @ (written @ [(ERROR, ''Consuming %s message raised exception.'')])"
    using assms(7) by (simp add: log_write_def)
  then have "dropped_and_logged self ?self'"
    unfolding dropped_and_logged_def using assms(4-6)
    by (auto simp: log_write_def drop_records_def)
  ultimately show ?thesis by blast
qed

text \<open>
  Claim C5. With a parser that raises no exception but \<^verbatim>\<open>ParseError\<close> on the data, the
  byte-consumer returns a byte count: no exception leaves it. For data with the boundary
  that the parser rejects it returns 0; for a parsed message that is not an ACK and lacks
  the From tag or a non-empty Call-ID, and for a parsed in-dialog message that matches
  neither dialog map, it returns the message's \<^verbatim>\<open>parsedBytes\<close>; in each of the three cases
  the message is dropped and logged.
\<close>

theorem protocol_errors_do_not_escape:
  assumes "\<forall>e. Message_Parse env data = Inl e \<longrightarrow> e = ParseError"
  shows "\<exists>n self'. sipByteConsumer env self data = (Inr n, self') \<and>
     (bytes_find data eoleol \<noteq> - 1 \<and> Message_Parse env data = Inl ParseError \<longrightarrow>
        n = 0 \<and> dropped_and_logged self self') \<and>
     (\<forall>msg. bytes_find data eoleol \<noteq> - 1 \<and> Message_Parse env data = Inr msg \<and>
        msg_type msg \<noteq> Method ''ACK'' \<and>
        (FromHeader_tag msg = None \<or> Call_IDHeader msg = None \<or>
         Call_IDHeader msg = Some []) \<longrightarrow>
        n = int (parsedBytes msg) \<and> dropped_and_logged self self') \<and>
     (\<forall>msg call_id from_tag to_tag.
        bytes_find data eoleol \<noteq> - 1 \<and> Message_Parse env data = Inr msg \<and>
        msg_type msg \<noteq> Method ''ACK'' \<and> FromHeader_tag msg = Some from_tag \<and>
        Call_IDHeader msg = Some call_id \<and> call_id \<noteq> [] \<and>
        ToHeader_tag msg = Some to_tag \<and>
        sptr_establishedDialogs self
          (if isresponse msg then EstablishedDialogID call_id from_tag to_tag
           else EstablishedDialogID call_id to_tag from_tag) = None \<and>
        sptr_provisionalDialogs self
          (ProvisionalDialogIDFromEstablishedID env
            (if isresponse msg then EstablishedDialogID call_id from_tag to_tag
             else EstablishedDialogID call_id to_tag from_tag)) = None \<longrightarrow>
        n = int (parsedBytes msg) \<and> dropped_and_logged self self')"
proof (cases "bytes_find data eoleol = - 1")
  case True
  then show ?thesis by (simp add: sipByteConsumer_no_eoleol)
next
  case False
  show ?thesis
  proof (cases "Message_Parse env data")
    case (Inl e)
    with assms have "e = ParseError" by simp
    with Inl False show ?thesis
      by (simp add: sipByteConsumer_ParseError log_write_def dropped_and_logged_def
          drop_records_def)
  next
    case (Inr msg)
    let ?self1 = "log_write INFO ''Message parsed.'' self"
    have same: "sptr_establishedDialogs ?self1 = sptr_establishedDialogs self"
      "sptr_provisionalDialogs ?self1 = sptr_provisionalDialogs self"
      "consume_message_calls ?self1 = consume_message_calls self"
      "log_records ?self1 = log_records self @ [(INFO, ''Message parsed.'')]"
      by (simp_all add: log_write_def)
    have "\<exists>self'. sipByteConsumer env self data = (Inr (int (parsedBytes msg)), self')"
      using False Inr by (simp add: sipByteConsumer_parsed split: prod.splits option.splits)
    then obtain n self' where res: "sipByteConsumer env self data = (Inr n, self')"
      and n: "n = int (parsedBytes msg)" by blast
    have missing: "dropped_and_logged self self'"
      if "msg_type msg \<noteq> Method ''ACK''"
        "FromHeader_tag msg = None \<or> Call_IDHeader msg = None \<or> Call_IDHeader msg = Some []"
    proof -
      from consumeMessage_missing_headers[OF that, of env ?self1]
      obtain r self2 written where cm: "consumeMessage env ?self1 msg = (r, self2)"
        and keep: "sptr_establishedDialogs self2 = sptr_establishedDialogs self"
        "sptr_provisionalDialogs self2 = sptr_provisionalDialogs self"
        "consume_message_calls self2 = consume_message_calls self"
        and lg: "log_records self2 = log_records ?self1 @ written"
        and w: "r = None \<longrightarrow> written \<noteq> [] \<and> last written \<in> set drop_records"
        using same(1-3) by auto
      have lg': "log_records self2 = log_records self @ ((INFO, ''Message parsed.'') # written)"
        using lg same(4) by simp
      have w': "r = None \<longrightarrow> (INFO, ''Message parsed.'') # written \<noteq> [] \<and>
          last ((INFO, ''Message parsed.'') # written) \<in> set drop_records"
        using w by simp
      from sipByteConsumer_parsed_dropped[OF False Inr cm keep lg' w'] res show ?thesis by simp
    qed
    have unroutable: "dropped_and_logged self self'"
      if "msg_type msg \<noteq> Method ''ACK''" "FromHeader_tag msg = Some from_tag"
        "Call_IDHeader msg = Some call_id" "call_id \<noteq> []" "ToHeader_tag msg = Some to_tag"
        "sptr_establishedDialogs self
           (if isresponse msg then EstablishedDialogID call_id from_tag to_tag
            else EstablishedDialogID call_id to_tag from_tag) = None"
        "sptr_provisionalDialogs self
           (ProvisionalDialogIDFromEstablishedID env
             (if isresponse msg then EstablishedDialogID call_id from_tag to_tag
              else EstablishedDialogID call_id to_tag from_tag)) = None"
      for call_id from_tag to_tag
    proof -
      let ?self2 = "log_write WARNING ''Unable to find a dialog for message with dialog ID %r''
           (?self1\<lparr>sptr_messages := sptr_messages ?self1 @ [msg]\<rparr>)"
      have cm: "consumeMessage env ?self1 msg = (Some AssertionError, ?self2)"
        using that same by (intro consumeMessage_unroutable) simp_all
      have lg: "log_records ?self2 = log_records self @
          [(INFO, ''Message parsed.''),
           (WARNING, ''Unable to find a dialog for message with dialog ID %r'')]"
        by (simp add: log_write_def)
      have w: "Some AssertionError = None \<longrightarrow>
          [(INFO, ''Message parsed.''),
           (WARNING, ''Unable to find a dialog for message with dialog ID %r'')] \<noteq> [] \<and>
          last [(INFO, ''Message parsed.''),
           (WARNING, ''Unable to find a dialog for message with dialog ID %r'')]
            \<in> set drop_records" by simp
      from sipByteConsumer_parsed_dropped[OF False Inr cm _ _ _ lg w] res show ?thesis
        by (simp add: log_write_def)
    qed
    have c1: "bytes_find data eoleol \<noteq> - 1 \<and> Message_Parse env data = Inl ParseError \<longrightarrow>
        n = 0 \<and> dropped_and_logged self self'"
      using Inr by simp
    have c2: "bytes_find data eoleol \<noteq> - 1 \<and> Message_Parse env data = Inr m \<and>
        msg_type m \<noteq> Method ''ACK'' \<and>
        (FromHeader_tag m = None \<or> Call_IDHeader m = None \<or> Call_IDHeader m = Some []) \<longrightarrow>
        n = int (parsedBytes m) \<and> dropped_and_logged self self'" for m
    proof (cases "m = msg")
      case True
      then show ?thesis using n missing by blast
    next
      case False
      then show ?thesis using Inr by simp
    qed
    have c3: "bytes_find data eoleol \<noteq> - 1 \<and> Message_Parse env data = Inr m \<and>
        msg_type m \<noteq> Method ''ACK'' \<and> FromHeader_tag m = Some from_tag \<and>
        Call_IDHeader m = Some call_id \<and> call_id \<noteq> [] \<and>
        ToHeader_tag m = Some to_tag \<and>
        sptr_establishedDialogs self
          (if isresponse m then EstablishedDialogID call_id from_tag to_tag
           else EstablishedDialogID call_id to_tag from_tag) = None \<and>
        sptr_provisionalDialogs self
          (ProvisionalDialogIDFromEstablishedID env
            (if isresponse m then EstablishedDialogID call_id from_tag to_tag
             else EstablishedDialogID call_id to_tag from_tag)) = None \<longrightarrow>
        n = int (parsedBytes m) \<and> dropped_and_logged self self'"
      for m call_id from_tag to_tag
    proof (cases "m = msg")
      case True
      then show ?thesis using n unroutable[of from_tag call_id to_tag] by blast
    next
      case False
      then show ?thesis using Inr by simp
    qed
    from res c1 c2 c3 show ?thesis by blast
  qed
qed

lemma example_options_find: "bytes_find example_options_bytes eoleol = 7"
  by (simp add: bytes_find_def example_options_bytes_def eoleol_def)

lemma example_options_Parse:
  "Message_Parse example_collaborators example_options_bytes = Inr example_options"
  by (simp add: example_collaborators_def example_options_bytes_def example_bye_bytes_def)

theorem protocol_errors_do_not_escape_witness:
  "(bytes_find example_malformed_bytes eoleol \<noteq> - 1 \<and>
    Message_Parse example_collaborators example_malformed_bytes = Inl ParseError \<and>
    (\<exists>self'. sipByteConsumer example_collaborators example_transport
                example_malformed_bytes = (Inr 0, self') \<and>
             dropped_and_logged example_transport self')) \<and>
   (bytes_find example_options_bytes eoleol \<noteq> - 1 \<and>
    Message_Parse example_collaborators example_options_bytes = Inr example_options \<and>
    FromHeader_tag example_options = None \<and>
    (\<exists>self'. sipByteConsumer example_collaborators example_transport
                example_options_bytes = (Inr 11, self') \<and>
             dropped_and_logged example_transport self')) \<and>
   (bytes_find example_bye_bytes eoleol \<noteq> - 1 \<and>
    Message_Parse example_collaborators example_bye_bytes = Inr example_bye \<and>
    sptr_establishedDialogs (SIPTransport_init :: (string \<times> string) SIPTransport)
      (EstablishedDialogID ''c1'' ''b2'' ''a1'') = None \<and>
    sptr_provisionalDialogs (SIPTransport_init :: (string \<times> string) SIPTransport)
      (''c1'', ''b2'') = None \<and>
    (\<exists>self'. sipByteConsumer example_collaborators SIPTransport_init
                example_bye_bytes = (Inr 11, self') \<and>
             dropped_and_logged SIPTransport_init self'))"
proof -
  have only: "\<forall>e. Message_Parse example_collaborators data = Inl e \<longrightarrow> e = ParseError"
    for data by (rule example_Parse_only_ParseError)
  have f: "bytes_find example_malformed_bytes eoleol \<noteq> - 1"
    "bytes_find example_options_bytes eoleol \<noteq> - 1"
    "bytes_find example_bye_bytes eoleol \<noteq> - 1"
    by (simp_all add: example_malformed_find example_options_find example_bye_find)
  have o: "msg_type example_options \<noteq> Method ''ACK''" "FromHeader_tag example_options = None"
    "parsedBytes example_options = 11"
    by (simp_all add: example_options_def)
  have b: "msg_type example_bye \<noteq> Method ''ACK''" "FromHeader_tag example_bye = Some ''a1''"
    "Call_IDHeader example_bye = Some ''c1''" "ToHeader_tag example_bye = Some ''b2''"
    "\<not> isresponse example_bye" "parsedBytes example_bye = 11"
    by (simp_all add: example_bye_def isresponse_def)
  have i: "sptr_establishedDialogs (SIPTransport_init :: (string \<times> string) SIPTransport)
      (EstablishedDialogID ''c1'' ''b2'' ''a1'') = None"
    "sptr_provisionalDialogs (SIPTransport_init :: (string \<times> string) SIPTransport)
      (''c1'', ''b2'') = None"
    by (simp_all add: SIPTransport_init_def)
  have p: "ProvisionalDialogIDFromEstablishedID example_collaborators
      (EstablishedDialogID ''c1'' ''b2'' ''a1'') = (''c1'', ''b2'')"
    by (simp add: example_collaborators_def)
  have first: "\<exists>self'. sipByteConsumer example_collaborators example_transport
                example_malformed_bytes = (Inr 0, self') \<and>
             dropped_and_logged example_transport self'"
    using protocol_errors_do_not_escape[OF only, where data=example_malformed_bytes and self=example_transport]
      f(1) example_malformed_Parse by auto
  have second: "\<exists>self'. sipByteConsumer example_collaborators example_transport
                example_options_bytes = (Inr 11, self') \<and>
             dropped_and_logged example_transport self'"
    using protocol_errors_do_not_escape[OF only, where data=example_options_bytes and self=example_transport]
      f(2) example_options_Parse o by auto
  have third: "\<exists>self'. sipByteConsumer example_collaborators SIPTransport_init
                example_bye_bytes = (Inr 11, self') \<and>
             dropped_and_logged SIPTransport_init self'"
    using protocol_errors_do_not_escape[OF only, where data=example_bye_bytes and self=SIPTransport_init]
      f(3) example_bye_Parse b i p by auto
  show ?thesis
    using f example_malformed_Parse example_options_Parse example_bye_Parse o(2) i
      first second third by blast
qed

text \<open>
  Claim C6. Registering an \<^verbatim>\<open>AORHandler\<close> for an address-of-record that has a handler
  raises the \<^verbatim>\<open>KeyError\<close> "Handler already registered", and whatever object is offered as
  handler the transport is left as it was; removing the handler of an address-of-record
  that has none raises the \<^verbatim>\<open>KeyError\<close> "AOR handler not registered" and leaves the
  transport as it was.
\<close>

theorem dialog_handler_registration_errors:
  "(aor \<in> dom (sptr_dialogHandlers self) \<longrightarrow>
      addDialogHandlerForAOR self aor (AORHandler_instance h) =
        (Some (KeyError ''Handler already registered for AOR %r''), self) \<and>
      snd (addDialogHandlerForAOR self aor handler) = self) \<and>
   (aor \<notin> dom (sptr_dialogHandlers self) \<longrightarrow>
      removeDialogHandlerForAOR self aor =
        (Some (KeyError ''AOR handler not registered for AOR %r''), self))"
  by (cases handler) (simp_all add: addDialogHandlerForAOR_def removeDialogHandlerForAOR_def)

theorem dialog_handler_registration_errors_witness:
  "''bob@biloxi.com'' \<in> dom (sptr_dialogHandlers example_transport) \<and>
   addDialogHandlerForAOR example_transport ''bob@biloxi.com'' (AORHandler_instance 2) =
     (Some (KeyError ''Handler already registered for AOR %r''), example_transport) \<and>
   ''alice@atlanta.com'' \<notin> dom (sptr_dialogHandlers example_transport) \<and>
   removeDialogHandlerForAOR example_transport ''alice@atlanta.com'' =
     (Some (KeyError ''AOR handler not registered for AOR %r''), example_transport)"
proof -
  have d: "''bob@biloxi.com'' \<in> dom (sptr_dialogHandlers example_transport)"
    "''alice@atlanta.com'' \<notin> dom (sptr_dialogHandlers example_transport)"
    by (simp_all add: example_transport_def SIPTransport_init_def)
  from dialog_handler_registration_errors[where aor="''bob@biloxi.com''"
      and self=example_transport and h=2 and handler="AORHandler_instance 2"]
    dialog_handler_registration_errors[where aor="''alice@atlanta.com''"
      and self=example_transport and h=2 and handler="AORHandler_instance 2"] d
  show ?thesis by simp
qed

section \<open>Properties of the transaction manager\<close>

lemma new_transaction_for_request_undefined:
  "TransactionManager_getattr ''new_transaction_for_request'' =
     Inl (AttributeError ''new_transaction_for_request'')"
  by (simp add: TransactionManager_getattr_def TransactionManager_attributes_def)

lemma new_transaction_oneshot_undefined:
  "new_transaction oneshot msg extra = Inl (AttributeError ''_new_transaction_oneshot'')"
  by (simp add: new_transaction_def TransactionManager_getattr_def
      TransactionManager_attributes_def ttype_name_def)

lemma new_transaction_client_defined:
  "new_transaction client msg 0 = new_transaction_client msg"
  by (simp add: new_transaction_def TransactionManager_getattr_def
      TransactionManager_attributes_def ttype_name_def call_factory_def)

text \<open>
  Claim C7. The claim asks that an outbound request gets a new client transaction, chosen
  by its method and registered under its key. The code does not get there: for every
  request, and every manager, \<^verbatim>\<open>transaction_for_outbound_message\<close> raises
  \<^verbatim>\<open>AttributeError\<close>, since the class defines no \<^verbatim>\<open>new_transaction_for_request\<close>; no
  transaction is constructed and the table is as it was.
\<close>

theorem outbound_request_raises_AttributeError:
  assumes "isrequest msg"
  shows "transaction_for_outbound_message self msg =
           (Inl (AttributeError ''new_transaction_for_request''), self)"
  using assms
  by (simp add: transaction_for_outbound_message_def new_transaction_for_request_undefined)

theorem outbound_request_raises_AttributeError_witness:
  "isrequest example_invite \<and> msg_type example_invite = Method ''INVITE'' \<and>
   transaction_for_outbound_message example_manager example_invite =
     (Inl (AttributeError ''new_transaction_for_request''), example_manager)"
proof -
  have r: "isrequest example_invite" by (simp add: isrequest_def example_invite_def)
  from outbound_request_raises_AttributeError[OF r, of example_manager] r
  show ?thesis by (simp add: example_invite_def)
qed

text \<open>
  Claim C8. For an outbound response whose key has no server transaction in the table:
  when the status code is in the range 200 to 299 and the CSeq method is INVITE, the claim
  asks for a one-shot transaction, and the code raises \<^verbatim>\<open>AttributeError\<close>, since
  \<^verbatim>\<open>new_transaction\<close> looks up \<^verbatim>\<open>_new_transaction_oneshot\<close> and the method is spelt
  \<^verbatim>\<open>_new_trasaction_oneshot\<close>; for every other response the \<^verbatim>\<open>KeyError\<close> of the look-up is
  raised, carrying the key and the message type. The table is as it was in both cases.
\<close>

theorem outbound_unmatched_response:
  assumes "\<not> isrequest msg"
    and "transactions self (transaction_key_for_message server msg) = None"
  shows "((\<exists>c. msg_type msg = Code c \<and> 200 \<le> c \<and> c < 300) \<and>
          CseqHeader_reqtype msg = ''INVITE'' \<longrightarrow>
            transaction_for_outbound_message self msg =
              (Inl (AttributeError ''_new_transaction_oneshot''), self)) \<and>
         (\<not> ((\<exists>c. msg_type msg = Code c \<and> 200 \<le> c \<and> c < 300) \<and>
             CseqHeader_reqtype msg = ''INVITE'') \<longrightarrow>
            transaction_for_outbound_message self msg =
              (Inl (TransactionKeyError (transaction_key_for_message server msg)
                     (Some (msg_type msg))), self))"
  using assms
  by (auto simp: transaction_for_outbound_message_def lookup_transaction_def
      new_transaction_oneshot_undefined Let_def split: msg_type.splits)

theorem outbound_unmatched_response_witness:
  "\<not> isrequest example_200_invite \<and>
   transactions example_manager (transaction_key_for_message server example_200_invite) = None \<and>
   msg_type example_200_invite = Code 200 \<and>
   CseqHeader_reqtype example_200_invite = ''INVITE'' \<and>
   transaction_for_outbound_message example_manager example_200_invite =
     (Inl (AttributeError ''_new_transaction_oneshot''), example_manager) \<and>
   \<not> isrequest example_404_invite \<and>
   transactions example_manager (transaction_key_for_message server example_404_invite) = None \<and>
   msg_type example_404_invite = Code 404 \<and>
   transaction_for_outbound_message example_manager example_404_invite =
     (Inl (TransactionKeyError (TransactionID server ''z9hG4bK1'' ''INVITE'') (Some (Code 404))),
      example_manager)"
proof -
  have a: "\<not> isrequest example_200_invite"
    "transactions example_manager (transaction_key_for_message server example_200_invite) = None"
    "msg_type example_200_invite = Code 200" "CseqHeader_reqtype example_200_invite = ''INVITE''"
    by (simp_all add: isrequest_def example_200_invite_def example_manager_def
        TransactionManager_init_def transaction_key_for_message_def)
  have b: "\<not> isrequest example_404_invite"
    "transactions example_manager (transaction_key_for_message server example_404_invite) = None"
    "msg_type example_404_invite = Code 404"
    "transaction_key_for_message server example_404_invite =
       TransactionID server ''z9hG4bK1'' ''INVITE''"
    by (simp_all add: isrequest_def example_404_invite_def example_manager_def
        TransactionManager_init_def transaction_key_for_message_def)
  from outbound_unmatched_response[OF a(1,2)] outbound_unmatched_response[OF b(1,2)] a b
  show ?thesis by simp
qed

section \<open>Properties of the cache of sockets\<close>

lemma map_of_dict_set: "map_of (dict_set k v items) = (map_of items)(k \<mapsto> v)"
  by (induction items) (auto simp: fun_eq_iff)

lemma dict_set_same: "map_of items k = Some v \<Longrightarrow> dict_set k v items = items"
  by (induction items) (auto split: if_splits)

lemma fst_set_dict_set: "fst ` set (dict_set k v items) = insert k (fst ` set items)"
  by (induction k v items rule: dict_set.induct) auto

lemma distinct_dict_set:
  "distinct (map fst items) \<Longrightarrow> distinct (map fst (dict_set k v items))"
proof (induction items)
  case Nil
  then show ?case by simp
next
  case (Cons a items)
  then show ?case
    using fst_set_dict_set[of k v items] by (cases a) auto
qed

lemma set_dict_set_subset: "set (dict_set k v items) \<subseteq> insert (k, v) (set items)"
  by (induction k v items rule: dict_set.induct) auto

lemma wf_dict_set:
  assumes "wf_cache (Dict items)" and "wf_cache v"
  shows "wf_cache (Dict (dict_set k v items))"
proof -
  have "list_all (\<lambda>kv. wf_cache (snd kv)) (dict_set k v items)"
    using assms set_dict_set_subset[of k v items] by (auto simp: list_all_iff)
  then show ?thesis using assms(1) by (simp add: distinct_dict_set)
qed

lemma wf_lookup: "wf_cache (Dict items) \<Longrightarrow> map_of items k = Some obj \<Longrightarrow> wf_cache obj"
  by (auto simp: list_all_iff dest!: map_of_SomeD)

lemma yield_vals_dict_set_new:
  "map_of items k = None \<Longrightarrow>
   yield_vals (Dict (dict_set k v items)) = yield_vals (Dict items) @ yield_vals v"
  by (induction items) (auto split: if_splits)

lemma yield_vals_dict_set_same:
  "map_of items k = Some old \<Longrightarrow> yield_vals v = yield_vals old \<Longrightarrow>
   yield_vals (Dict (dict_set k v items)) = yield_vals (Dict items)"
  by (induction items) (auto split: if_splits)

lemma first_item_in: "first_item items = Some (k, obj) \<Longrightarrow> (k, obj) \<in> set items"
  by (cases items) auto

lemma first_port_in: "first_port pf items = Some (k, obj) \<Longrightarrow> (k, obj) \<in> set items"
  by (induction items) (auto split: if_splits)

lemma call_finder_cases:
  assumes "call_finder f items k = Some (k', obj)"
  shows "(f = new_dict_finder \<and> k' = k \<and> obj = Dict []) \<or> (k', obj) \<in> set items"
  using assms
  by (cases f) (auto split: if_splits dest: first_item_in first_port_in)

lemma step_cases:
  assumes "wf_cache (Dict items)"
    and "(case map_of items key of Some obj \<Rightarrow> Some (key, obj)
          | None \<Rightarrow> call_finder finder items key) = Some (key', obj)"
  shows "map_of items key' = Some obj \<or> (map_of items key' = None \<and> obj = Dict [])"
proof (cases "map_of items key")
  case None
  with assms(2) have "call_finder finder items key = Some (key', obj)" by simp
  from call_finder_cases[OF this] show ?thesis
  proof
    assume "finder = new_dict_finder \<and> key' = key \<and> obj = Dict []"
    with None show ?thesis by simp
  next
    assume "(key', obj) \<in> set items"
    with assms(1) have "map_of items key' = Some obj" by simp
    then show ?thesis by simp
  qed
next
  case (Some a)
  with assms(2) show ?thesis by auto
qed

lemma yield_dict_path_keeps:
  "wf_cache c \<Longrightarrow>
   wf_cache (snd (yield_dict_path c lookups)) \<and>
   yield_vals (snd (yield_dict_path c lookups)) = yield_vals c"
proof (induction c lookups rule: yield_dict_path.induct)
  case (1 next_dict)
  then show ?case by simp
next
  case (2 sck key finder lookups)
  then show ?case by simp
next
  case (3 items key finder lookups)
  let ?step = "(case map_of items key of Some obj \<Rightarrow> Some (key, obj)
                | None \<Rightarrow> call_finder finder items key)"
  show ?case
  proof (cases ?step)
    case None
    then show ?thesis using "3.prems" by simp
  next
    case (Some a)
    obtain key' obj where a: "a = (key', obj)" by (cases a)
    from step_cases[OF "3.prems" Some[unfolded a]]
    have sc: "map_of items key' = Some obj \<or> (map_of items key' = None \<and> obj = Dict [])" .
    have wfo: "wf_cache obj" using sc wf_lookup[OF "3.prems"] by auto
    from "3.IH"[OF Some[unfolded a] refl wfo]
    have ih: "wf_cache (snd (yield_dict_path obj lookups))"
      "yield_vals (snd (yield_dict_path obj lookups)) = yield_vals obj" by simp_all
    obtain r obj' where y: "yield_dict_path obj lookups = (r, obj')"
      by (cases "yield_dict_path obj lookups")
    have res: "snd (yield_dict_path (Dict items) ((key, finder) # lookups)) =
        Dict (dict_set key' obj' items)"
      using Some a y by (cases r) simp_all
    have "wf_cache (Dict (dict_set key' obj' items))"
      using wf_dict_set[OF "3.prems"] ih y by simp
    moreover have "yield_vals (Dict (dict_set key' obj' items)) = yield_vals (Dict items)"
      using sc
    proof
      assume "map_of items key' = Some obj"
      then show ?thesis using ih y by (intro yield_vals_dict_set_same) simp_all
    next
      assume "map_of items key' = None \<and> obj = Dict []"
      then show ?thesis using ih y yield_vals_dict_set_new[of items key' obj'] by simp
    qed
    ultimately show ?thesis unfolding res by simp
  qed
qed

lemma lookup_path_append:
  "lookup_path c (ks @ ks') = (case lookup_path c ks of None \<Rightarrow> None | Some d \<Rightarrow> lookup_path d ks')"
proof (induction c ks rule: lookup_path.induct)
  case (1 c)
  then show ?case by simp
next
  case (2 sck key keys)
  then show ?case by simp
next
  case (3 items key keys)
  then show ?case by (cases "map_of items key") simp_all
qed

lemma yield_dict_path_lookup:
  "yield_dict_path c lookups = (Inr path, c') \<Longrightarrow> path \<noteq> [] \<Longrightarrow>
   lookup_path c' (map fst path) = Some (snd (last path))"
proof (induction c lookups arbitrary: path c' rule: yield_dict_path.induct)
  case (1 next_dict)
  then show ?case by simp
next
  case (2 sck key finder lookups)
  then show ?case by simp
next
  case (3 items key finder lookups)
  let ?step = "(case map_of items key of Some obj \<Rightarrow> Some (key, obj)
                | None \<Rightarrow> call_finder finder items key)"
  show ?case
  proof (cases ?step)
    case None
    with "3.prems" show ?thesis by simp
  next
    case (Some a)
    obtain key' obj where a: "a = (key', obj)" by (cases a)
    obtain r obj' where y: "yield_dict_path obj lookups = (r, obj')"
      by (cases "yield_dict_path obj lookups")
    from "3.prems"(1) Some a y obtain p where r: "r = Inr p"
      and path: "path = (key', obj') # p" and c': "c' = Dict (dict_set key' obj' items)"
      by (cases r) auto
    have m: "map_of (dict_set key' obj' items) key' = Some obj'"
      by (simp add: map_of_dict_set)
    show ?thesis
    proof (cases "p = []")
      case True
      then show ?thesis using path c' m by simp
    next
      case False
      from "3.IH"[OF Some[unfolded a] refl y[unfolded r] False]
      show ?thesis using path c' m False by simp
    qed
  qed
qed

lemma modify_at_Dict:
  "modify_at (k # ks) f (Dict items) =
     Dict (map (\<lambda>kv. if fst kv = k then (fst kv, modify_at ks f (snd kv)) else kv) items)"
  by simp

lemma map_modify_notin:
  "k \<notin> fst ` set items \<Longrightarrow>
   map (\<lambda>kv. if fst kv = k then (fst kv, g (snd kv)) else kv) items = items"
  by (induction items) auto

lemma map_modify_split:
  assumes "distinct (map fst items)" and "map_of items k = Some v"
  shows "\<exists>xs ys. items = xs @ (k, v) # ys \<and> k \<notin> fst ` set xs \<and> k \<notin> fst ` set ys \<and>
           map (\<lambda>kv. if fst kv = k then (fst kv, g (snd kv)) else kv) items =
             xs @ (k, g v) # ys"
proof -
  from assms(2) have "(k, v) \<in> set items" by (rule map_of_SomeD)
  then obtain xs ys where items: "items = xs @ (k, v) # ys" by (auto simp: in_set_conv_decomp)
  with assms(1) have nin: "k \<notin> fst ` set xs" "k \<notin> fst ` set ys" by auto
  then show ?thesis using items by (auto simp: map_modify_notin)
qed

lemma yield_vals_Dict_append:
  "yield_vals (Dict (xs @ ys)) = yield_vals (Dict xs) @ yield_vals (Dict ys)"
  by simp

lemma modify_at_mset:
  "wf_cache c \<Longrightarrow> lookup_path c ks = Some old \<Longrightarrow>
   mset (yield_vals (modify_at ks f c)) + mset (yield_vals old) =
     mset (yield_vals c) + mset (yield_vals (f old))"
proof (induction c ks arbitrary: old rule: lookup_path.induct)
  case (1 c)
  then show ?case by simp
next
  case (2 sck key keys)
  then show ?case by simp
next
  case (3 items key keys)
  from "3.prems"(2) obtain v where v: "map_of items key = Some v"
    and l: "lookup_path v keys = Some old" by (auto split: option.splits)
  have d: "distinct (map fst items)" using "3.prems"(1) by simp
  have wv: "wf_cache v" using wf_lookup[OF "3.prems"(1) v] .
  from map_modify_split[OF d v, of "modify_at keys f"] obtain xs ys where
    items: "items = xs @ (key, v) # ys" and
    m: "map (\<lambda>kv. if fst kv = key then (fst kv, modify_at keys f (snd kv)) else kv) items =
          xs @ (key, modify_at keys f v) # ys" by blast
  from "3.IH"[OF v wv l]
  have ih: "mset (yield_vals (modify_at keys f v)) + mset (yield_vals old) =
     mset (yield_vals v) + mset (yield_vals (f old))" .
  have "mset (yield_vals (modify_at (key # keys) f (Dict items))) =
      mset (yield_vals (Dict xs)) + mset (yield_vals (modify_at keys f v)) +
      mset (yield_vals (Dict ys))"
    unfolding modify_at_Dict m by simp
  moreover have "mset (yield_vals (Dict items)) =
      mset (yield_vals (Dict xs)) + mset (yield_vals v) + mset (yield_vals (Dict ys))"
    unfolding items by simp
  ultimately show ?case using ih by (simp add: ac_simps)
qed

lemma modify_at_lookup:
  "wf_cache c \<Longrightarrow> lookup_path c ks = Some old \<Longrightarrow>
   lookup_path (modify_at ks f c) ks = Some (f old)"
proof (induction c ks arbitrary: old rule: lookup_path.induct)
  case (1 c)
  then show ?case by simp
next
  case (2 sck key keys)
  then show ?case by simp
next
  case (3 items key keys)
  from "3.prems"(2) obtain v where v: "map_of items key = Some v"
    and l: "lookup_path v keys = Some old" by (auto split: option.splits)
  have d: "distinct (map fst items)" using "3.prems"(1) by simp
  have wv: "wf_cache v" using wf_lookup[OF "3.prems"(1) v] .
  from map_modify_split[OF d v, of "modify_at keys f"] obtain xs ys where
    items: "items = xs @ (key, v) # ys" and nin: "key \<notin> fst ` set xs" and
    m: "map (\<lambda>kv. if fst kv = key then (fst kv, modify_at keys f (snd kv)) else kv) items =
          xs @ (key, modify_at keys f v) # ys" by blast
  have "map_of (xs @ (key, modify_at keys f v) # ys) key = Some (modify_at keys f v)"
  proof -
    from nin have "map_of xs key = None" by (simp add: map_of_eq_None_iff)
    then show ?thesis by (simp add: map_add_def)
  qed
  then show ?case unfolding modify_at_Dict m using "3.IH"[OF v wv l] by simp
qed

lemma modify_at_wf:
  "wf_cache c \<Longrightarrow> lookup_path c ks = Some old \<Longrightarrow> wf_cache (f old) \<Longrightarrow>
   wf_cache (modify_at ks f c)"
proof (induction c ks arbitrary: old rule: lookup_path.induct)
  case (1 c)
  then show ?case by simp
next
  case (2 sck key keys)
  then show ?case by simp
next
  case (3 items key keys)
  from "3.prems"(2) obtain v where v: "map_of items key = Some v"
    and l: "lookup_path v keys = Some old" by (auto split: option.splits)
  have d: "distinct (map fst items)" using "3.prems"(1) by simp
  have wv: "wf_cache v" using wf_lookup[OF "3.prems"(1) v] .
  from map_modify_split[OF d v, of "modify_at keys f"] obtain xs ys where
    items: "items = xs @ (key, v) # ys" and
    m: "map (\<lambda>kv. if fst kv = key then (fst kv, modify_at keys f (snd kv)) else kv) items =
          xs @ (key, modify_at keys f v) # ys" by blast
  have "wf_cache (modify_at keys f v)" using "3.IH"[OF v wv l "3.prems"(3)] .
  then show ?case unfolding modify_at_Dict m using "3.prems"(1) unfolding items
    by (simp add: list_all_iff)
qed

lemma find_cached_object_snd:
  "snd (find_cached_object c tpl) = snd (yield_dict_path c tpl)"
  by (auto simp: find_cached_object_def Let_def split: prod.splits sum.splits list.splits)

lemma find_cached_object_keeps:
  "wf_cache c \<Longrightarrow>
   wf_cache (snd (find_cached_object c tpl)) \<and>
   yield_vals (snd (find_cached_object c tpl)) = yield_vals c"
  unfolding find_cached_object_snd by (rule yield_dict_path_keeps)

lemma find_cached_object_Some:
  assumes "find_cached_object c tpl = (Inr (path, Some obj), c')"
  shows "yield_dict_path c tpl = (Inr path, c') \<and> path \<noteq> [] \<and> obj = snd (last path) \<and>
         length path = length tpl"
  using assms
  by (auto simp: find_cached_object_def Let_def split: prod.splits sum.splits list.splits if_splits)








lemma tuple_length:
  "length (convert_listen_description_into_find_tuple laddr) =
     (if laddr_sock_family laddr = AF_INET then 4 else 6)"
  by (simp add: convert_listen_description_into_find_tuple_def)




lemma dict_del_mset:
  "distinct (map fst items) \<Longrightarrow> map_of items k = Some v \<Longrightarrow>
   mset (yield_vals (Dict items)) = mset (yield_vals (Dict (dict_del k items))) + mset (yield_vals v)"
  by (induction items) (auto split: if_splits)

lemma set_dict_del: "set (dict_del k items) \<subseteq> set items"
  by (induction k items rule: dict_del.induct) auto

lemma distinct_dict_del: "distinct (map fst items) \<Longrightarrow> distinct (map fst (dict_del k items))"
proof (induction k items rule: dict_del.induct)
  case (1 k)
  then show ?case by simp
next
  case (2 k k' v' items)
  have "fst ` set (dict_del k items) \<subseteq> fst ` set items"
    using set_dict_del[of k items] by blast
  with 2 show ?case by auto
qed

lemma map_of_dict_del:
  "distinct (map fst items) \<Longrightarrow> map_of (dict_del k items) k = None"
  by (induction k items rule: dict_del.induct) (auto simp: map_of_eq_None_iff image_iff)

lemma wf_dict_del: "wf_cache (Dict items) \<Longrightarrow> wf_cache (Dict (dict_del k items))"
  using set_dict_del[of k items] by (auto simp: distinct_dict_del list_all_iff)

lemma lookup_path_snoc:
  assumes "lookup_path c (ks @ [k]) = Some x"
  shows "\<exists>items. lookup_path c ks = Some (Dict items) \<and> map_of items k = Some x"
proof -
  from assms obtain d where d: "lookup_path c ks = Some d" "lookup_path d [k] = Some x"
    by (auto simp: lookup_path_append split: option.splits)
  from d(2) obtain items where "d = Dict items" "map_of items k = Some x"
    by (cases d) (auto split: option.splits)
  with d(1) show ?thesis by simp
qed

lemma wf_lookup_path: "wf_cache c \<Longrightarrow> lookup_path c ks = Some d \<Longrightarrow> wf_cache d"
proof (induction c ks rule: lookup_path.induct)
  case (1 c)
  then show ?case by simp
next
  case (2 sck key keys)
  then show ?case by simp
next
  case (3 items key keys)
  from "3.prems"(2) obtain v where v: "map_of items key = Some v"
    and l: "lookup_path v keys = Some d" by (auto split: option.splits)
  from "3.IH"[OF v wf_lookup[OF "3.prems"(1) v] l] show ?case .
qed

lemma release_last_retain:
  assumes wf: "wf_cache (tp_listen_sockets self)"
    and f: "find_cached_object (tp_listen_sockets self)
              (convert_listen_description_into_find_tuple laddr) =
            (Inr (path, Some (Obj lsck)), c')"
    and rc: "retain_count lsck = 1"
  shows "\<exists>self'. release_listen_address self laddr = (None, self') \<and>
           wf_cache (tp_listen_sockets self') \<and>
           mset (yield_vals (tp_listen_sockets self')) + {#lsck#} =
             mset (yield_vals (tp_listen_sockets self)) \<and>
           lookup_path (tp_listen_sockets self') (map fst path) = None \<and>
           (\<exists>items. lookup_path (tp_listen_sockets self') (butlast (map fst path)) =
              Some (Dict items))"
proof -
  let ?tpl = "convert_listen_description_into_find_tuple laddr"
  let ?keys = "map fst path"
  let ?del = "\<lambda>c. case c of Dict items \<Rightarrow> Dict (dict_del (last ?keys) items) | Obj sck \<Rightarrow> Obj sck"
  from find_cached_object_Some[OF f]
  have y: "yield_dict_path (tp_listen_sockets self) ?tpl = (Inr path, c')"
    and ne: "path \<noteq> []" and last: "Obj lsck = snd (last path)"
    and len: "length path = length ?tpl" by simp_all
  have len2: "\<not> length path < 2" using len tuple_length[of laddr] by (simp split: if_splits)
  from yield_dict_path_keeps[OF wf, of ?tpl] y
  have wfc: "wf_cache c'" and yv: "yield_vals c' = yield_vals (tp_listen_sockets self)"
    by simp_all
  from yield_dict_path_lookup[OF y ne] last
  have lk: "lookup_path c' ?keys = Some (Obj lsck)" by simp
  define c1 where "c1 = modify_at ?keys (\<lambda>c. Obj (release lsck)) c'"
  have wf1: "wf_cache c1" unfolding c1_def by (rule modify_at_wf[OF wfc lk]) simp
  have lk1: "lookup_path c1 ?keys = Some (Obj (release lsck))"
    unfolding c1_def by (rule modify_at_lookup[OF wfc lk])
  have m1: "mset (yield_vals c1) + {#lsck#} = mset (yield_vals c') + {#release lsck#}"
    unfolding c1_def using modify_at_mset[OF wfc lk, of "\<lambda>c. Obj (release lsck)"] by simp
  have keys: "?keys = butlast ?keys @ [last ?keys]" using ne by simp
  from lk1 keys have "lookup_path c1 (butlast ?keys @ [last ?keys]) = Some (Obj (release lsck))"
    by simp
  from lookup_path_snoc[OF this] obtain items1 where
    p1: "lookup_path c1 (butlast ?keys) = Some (Dict items1)"
    and l1: "map_of items1 (last ?keys) = Some (Obj (release lsck))" by blast
  have wfi: "wf_cache (Dict items1)" using wf_lookup_path[OF wf1 p1] .
  then have d1: "distinct (map fst items1)" by simp
  define c2 where "c2 = modify_at (butlast ?keys) ?del c1"
  have wf2: "wf_cache c2" unfolding c2_def
    by (rule modify_at_wf[OF wf1 p1]) (use wfi in \<open>simp add: wf_dict_del del: wf_cache.simps\<close>)
  have lk2: "lookup_path c2 (butlast ?keys) = Some (Dict (dict_del (last ?keys) items1))"
    unfolding c2_def using modify_at_lookup[OF wf1 p1, of ?del] by simp
  have "lookup_path c2 (butlast ?keys @ [last ?keys]) = None"
    unfolding lookup_path_append lk2 by (simp add: map_of_dict_del[OF d1])
  then have gone: "lookup_path c2 ?keys = None" using keys by simp
  have "mset (yield_vals c2) + mset (yield_vals (Dict items1)) =
      mset (yield_vals c1) + mset (yield_vals (Dict (dict_del (last ?keys) items1)))"
    unfolding c2_def using modify_at_mset[OF wf1 p1, of ?del] by simp
  moreover have "mset (yield_vals (Dict items1)) =
      mset (yield_vals (Dict (dict_del (last ?keys) items1))) + {#release lsck#}"
    using dict_del_mset[OF d1 l1] by simp
  ultimately have "mset (yield_vals c2) + {#release lsck#} = mset (yield_vals c1)"
    by (simp add: ac_simps)
  then have "mset (yield_vals c2) + {#release lsck#} + {#lsck#} =
      mset (yield_vals c') + {#release lsck#}"
    using m1 by simp
  then have "(mset (yield_vals c2) + {#lsck#}) + {#release lsck#} =
      mset (yield_vals c') + {#release lsck#}"
    by (simp add: ac_simps)
  then have m2: "mset (yield_vals c2) + {#lsck#} = mset (yield_vals c')"
    by (simp only: add_right_cancel)
  have nr: "\<not> is_retained (release lsck)" using rc by (simp add: is_retained_def release_def)
  have res: "release_listen_address self laddr = (None, self\<lparr>tp_listen_sockets := c2\<rparr>)"
    unfolding release_listen_address_def f c2_def c1_def using nr len2 by (simp add: Let_def)
  show ?thesis unfolding res using wf2 m2 yv gone lk2 by simp
qed




lemma example_failed_lookup:
  "find_cached_object (Dict []) (convert_listen_description_into_find_tuple example_laddr) =
     (Inr ([(AF_INET, Dict [(SOCK_DGRAM, Dict [])]), (SOCK_DGRAM, Dict [])], None),
      Dict [(AF_INET, Dict [(SOCK_DGRAM, Dict [])])])"
  by (simp add: convert_listen_description_into_find_tuple_def find_cached_object_def
      example_laddr_def AF_INET_def SOCK_DGRAM_def Let_def)

lemma example_release:
  "release_listen_address example_listen_transport example_laddr =
     (None,
      \<lparr>tp_listen_sockets =
         Dict [(AF_INET, Dict [(SOCK_DGRAM, Dict [(PyStr ''127.0.0.1'', Dict [])])])],
       tp_connected_sockets = Dict []\<rparr>)"
  by (simp add: release_listen_address_def convert_listen_description_into_find_tuple_def
      find_cached_object_def example_laddr_def example_listen_transport_def
      example_listen_socket_def AF_INET_def SOCK_DGRAM_def Let_def release_def is_retained_def)

lemma insert_cached_object_lookup:
  "wf_cache c \<Longrightarrow> wf_cache obj \<Longrightarrow> insert_cached_object c ks obj = Inr c' \<Longrightarrow>
   wf_cache c' \<and> lookup_path c' ks = Some obj"
proof (induction c ks obj arbitrary: c' rule: insert_cached_object.induct)
  case (1 root obj)
  then show ?case by simp
next
  case (2 sck key obj)
  then show ?case by simp
next
  case (3 sck key v va obj)
  then show ?case by simp
next
  case (4 items key obj)
  then have c': "c' = Dict (dict_set key obj items)" by simp
  show ?case unfolding c' using wf_dict_set[OF "4.prems"(1,2)]
    by (simp add: map_of_dict_set del: wf_cache.simps)
next
  case (5 items key v va obj)
  define new_dict where "new_dict = (case map_of items key of Some d \<Rightarrow> d | None \<Rightarrow> Dict [])"
  have wn: "wf_cache new_dict"
    unfolding new_dict_def using wf_lookup[OF "5.prems"(1)]
    by (cases "map_of items key") simp_all
  from "5.prems"(3) obtain nd where i: "insert_cached_object new_dict (v # va) obj = Inr nd"
    and c': "c' = Dict (dict_set key nd items)"
    by (auto simp: new_dict_def Let_def split: sum.splits)
  from "5.IH"[OF new_dict_def wn "5.prems"(2) i]
  have ih: "wf_cache nd" "lookup_path nd (v # va) = Some obj" by simp_all
  show ?case unfolding c' using wf_dict_set[OF "5.prems"(1) ih(1)] ih(2)
    by (simp add: map_of_dict_set del: wf_cache.simps)
qed

lemma add_listen_socket_proxy_lookup:
  assumes "wf_cache (tp_listen_sockets self)"
    and "add_listen_socket_proxy self sck = (None, self')"
  shows "wf_cache (tp_listen_sockets self') \<and>
         lookup_path (tp_listen_sockets self')
           (map fst (convert_listen_description_into_find_tuple (sck_local_address sck))) =
         Some (Obj (retain sck))"
proof -
  let ?keys = "map fst (convert_listen_description_into_find_tuple (sck_local_address sck))"
  from assms(2) obtain root where
    i: "insert_cached_object (tp_listen_sockets self) ?keys (Obj (retain sck)) = Inr root"
    and s: "self' = self\<lparr>tp_listen_sockets := root\<rparr>"
    by (auto simp: add_listen_socket_proxy_def Let_def split: sum.splits)
  have "wf_cache (Obj (retain sck))" by simp
  from insert_cached_object_lookup[OF assms(1) this i] show ?thesis unfolding s by simp
qed





lemma dict_set_mset:
  "mset (yield_vals (Dict (dict_set k v items))) +
     (case map_of items k of Some old \<Rightarrow> mset (yield_vals old) | None \<Rightarrow> {#}) =
   mset (yield_vals (Dict items)) + mset (yield_vals v)"
  by (induction k v items rule: dict_set.induct) (auto simp: ac_simps)

lemma insert_cached_object_mset:
  "insert_cached_object c ks obj = Inr c' \<Longrightarrow>
   mset (yield_vals c') +
     (case lookup_path c ks of Some old \<Rightarrow> mset (yield_vals old) | None \<Rightarrow> {#}) =
   mset (yield_vals c) + mset (yield_vals obj)"
proof (induction c ks obj arbitrary: c' rule: insert_cached_object.induct)
  case (1 root obj)
  then show ?case by simp
next
  case (2 sck key obj)
  then show ?case by simp
next
  case (3 sck key v va obj)
  then show ?case by simp
next
  case (4 items key obj)
  then have c': "c' = Dict (dict_set key obj items)" by simp
  have "lookup_path (Dict items) [key] = map_of items key"
    by (cases "map_of items key") simp_all
  then show ?case unfolding c' using dict_set_mset[of key obj items] by simp
next
  case (5 items key v va obj)
  define new_dict where "new_dict = (case map_of items key of Some d \<Rightarrow> d | None \<Rightarrow> Dict [])"
  from "5.prems" obtain nd where i: "insert_cached_object new_dict (v # va) obj = Inr nd"
    and c': "c' = Dict (dict_set key nd items)"
    by (auto simp: new_dict_def Let_def split: sum.splits)
  from "5.IH"[OF new_dict_def i]
  have ih: "mset (yield_vals nd) +
      (case lookup_path new_dict (v # va) of Some old \<Rightarrow> mset (yield_vals old) | None \<Rightarrow> {#}) =
      mset (yield_vals new_dict) + mset (yield_vals obj)" .
  note ds = dict_set_mset[of key nd items]
  show ?case
  proof (cases "map_of items key")
    case None
    then have "new_dict = Dict []" by (simp add: new_dict_def)
    with ih have "mset (yield_vals nd) = mset (yield_vals obj)" by simp
    then show ?thesis unfolding c' using ds None by simp
  next
    case (Some d)
    then have nd: "new_dict = d" by (simp add: new_dict_def)
    let ?L = "(case lookup_path d (v # va) of Some old \<Rightarrow> mset (yield_vals old) | None \<Rightarrow> {#})"
    have l: "lookup_path (Dict items) (key # v # va) = lookup_path d (v # va)"
      using Some by simp
    from ds Some have "mset (yield_vals c') + mset (yield_vals d) =
        mset (yield_vals (Dict items)) + mset (yield_vals nd)" unfolding c' by simp
    then have "mset (yield_vals c') + mset (yield_vals d) + ?L =
        mset (yield_vals (Dict items)) + (mset (yield_vals nd) + ?L)" by (simp add: ac_simps)
    also have "\<dots> = mset (yield_vals (Dict items)) + (mset (yield_vals d) + mset (yield_vals obj))"
      using ih nd by simp
    finally have "(mset (yield_vals c') + ?L) + mset (yield_vals d) =
        (mset (yield_vals (Dict items)) + mset (yield_vals obj)) + mset (yield_vals d)"
      by (simp add: ac_simps)
    then have "mset (yield_vals c') + ?L = mset (yield_vals (Dict items)) + mset (yield_vals obj)"
      by (simp only: add_right_cancel)
    then show ?thesis unfolding l .
  qed
qed

lemma add_listen_socket_proxy_mset:
  assumes "add_listen_socket_proxy self sck = (None, self')"
  shows "mset (yield_vals (tp_listen_sockets self')) +
           (case lookup_path (tp_listen_sockets self)
                   (map fst (convert_listen_description_into_find_tuple
                      (sck_local_address sck))) of
              Some old \<Rightarrow> mset (yield_vals old) | None \<Rightarrow> {#}) =
         mset (yield_vals (tp_listen_sockets self)) + {#retain sck#}"
proof -
  let ?keys = "map fst (convert_listen_description_into_find_tuple (sck_local_address sck))"
  from assms obtain root where
    i: "insert_cached_object (tp_listen_sockets self) ?keys (Obj (retain sck)) = Inr root"
    and s: "self' = self\<lparr>tp_listen_sockets := root\<rparr>"
    by (auto simp: add_listen_socket_proxy_def Let_def split: sum.splits)
  from insert_cached_object_mset[OF i] show ?thesis unfolding s by simp
qed

lemma release_still_retained:
  assumes wf: "wf_cache (tp_listen_sockets self)"
    and f: "find_cached_object (tp_listen_sockets self)
              (convert_listen_description_into_find_tuple laddr) =
            (Inr (path, Some (Obj lsck)), c')"
    and rc: "1 < retain_count lsck"
  shows "\<exists>self'. release_listen_address self laddr = (None, self') \<and>
           wf_cache (tp_listen_sockets self') \<and>
           mset (yield_vals (tp_listen_sockets self')) + {#lsck#} =
             mset (yield_vals (tp_listen_sockets self)) + {#release lsck#} \<and>
           lookup_path (tp_listen_sockets self') (map fst path) = Some (Obj (release lsck))"
proof -
  let ?tpl = "convert_listen_description_into_find_tuple laddr"
  let ?keys = "map fst path"
  from find_cached_object_Some[OF f]
  have y: "yield_dict_path (tp_listen_sockets self) ?tpl = (Inr path, c')"
    and ne: "path \<noteq> []" and last: "Obj lsck = snd (last path)" by simp_all
  from yield_dict_path_keeps[OF wf, of ?tpl] y
  have wfc: "wf_cache c'" and yv: "yield_vals c' = yield_vals (tp_listen_sockets self)"
    by simp_all
  from yield_dict_path_lookup[OF y ne] last
  have lk: "lookup_path c' ?keys = Some (Obj lsck)" by simp
  define c1 where "c1 = modify_at ?keys (\<lambda>c. Obj (release lsck)) c'"
  have wf1: "wf_cache c1" unfolding c1_def by (rule modify_at_wf[OF wfc lk]) simp
  have lk1: "lookup_path c1 ?keys = Some (Obj (release lsck))"
    unfolding c1_def by (rule modify_at_lookup[OF wfc lk])
  have m1: "mset (yield_vals c1) + {#lsck#} = mset (yield_vals c') + {#release lsck#}"
    unfolding c1_def using modify_at_mset[OF wfc lk, of "\<lambda>c. Obj (release lsck)"] by simp
  have r: "is_retained (release lsck)" using rc by (simp add: is_retained_def release_def)
  have res: "release_listen_address self laddr = (None, self\<lparr>tp_listen_sockets := c1\<rparr>)"
    unfolding release_listen_address_def f c1_def using r by (simp add: Let_def)
  show ?thesis unfolding res using wf1 m1 yv lk1 by simp
qed

text \<open>
  Claim C10, as amended. On a well-formed cache of listen sockets: a look-up, whether it
  finds a socket or not, leaves the cache well formed and its socket proxies as they
  were. Adding a proxy leaves the cache well formed, with the retained proxy under the
  keys of its description; the proxies of the cache are then the ones it held, less
  those that were under these keys, and the retained proxy. Releasing a socket that is
  found with more than one retain left puts the released proxy in its place and changes
  no other. Releasing a socket that is found with one retain left takes that one proxy
  out of the cache and deletes its key; the dictionary that held the key stays in the
  cache.
\<close>

theorem cache_lookup_add_release:
  assumes "wf_cache (tp_listen_sockets self)"
  shows "wf_cache (snd (find_cached_object (tp_listen_sockets self) tpl)) \<and>
         yield_vals (snd (find_cached_object (tp_listen_sockets self) tpl)) =
           yield_vals (tp_listen_sockets self) \<and>
         (\<forall>sck self'. add_listen_socket_proxy self sck = (None, self') \<longrightarrow>
            wf_cache (tp_listen_sockets self') \<and>
            lookup_path (tp_listen_sockets self')
              (map fst (convert_listen_description_into_find_tuple (sck_local_address sck))) =
              Some (Obj (retain sck)) \<and>
            mset (yield_vals (tp_listen_sockets self')) +
              (case lookup_path (tp_listen_sockets self)
                      (map fst (convert_listen_description_into_find_tuple
                         (sck_local_address sck))) of
                 Some old \<Rightarrow> mset (yield_vals old) | None \<Rightarrow> {#}) =
              mset (yield_vals (tp_listen_sockets self)) + {#retain sck#}) \<and>
         (\<forall>path lsck c'.
            find_cached_object (tp_listen_sockets self)
              (convert_listen_description_into_find_tuple laddr) =
              (Inr (path, Some (Obj lsck)), c') \<and> 1 < retain_count lsck \<longrightarrow>
            (\<exists>self'. release_listen_address self laddr = (None, self') \<and>
               wf_cache (tp_listen_sockets self') \<and>
               mset (yield_vals (tp_listen_sockets self')) + {#lsck#} =
                 mset (yield_vals (tp_listen_sockets self)) + {#release lsck#} \<and>
               lookup_path (tp_listen_sockets self') (map fst path) =
                 Some (Obj (release lsck)))) \<and>
         (\<forall>path lsck c'.
            find_cached_object (tp_listen_sockets self)
              (convert_listen_description_into_find_tuple laddr) =
              (Inr (path, Some (Obj lsck)), c') \<and> retain_count lsck = 1 \<longrightarrow>
            (\<exists>self'. release_listen_address self laddr = (None, self') \<and>
               wf_cache (tp_listen_sockets self') \<and>
               mset (yield_vals (tp_listen_sockets self')) + {#lsck#} =
                 mset (yield_vals (tp_listen_sockets self)) \<and>
               lookup_path (tp_listen_sockets self') (map fst path) = None \<and>
               (\<exists>items. lookup_path (tp_listen_sockets self') (butlast (map fst path)) =
                  Some (Dict items))))"
proof -
  note look = find_cached_object_keeps[OF assms, of tpl]
  have add: "wf_cache (tp_listen_sockets self') \<and>
      lookup_path (tp_listen_sockets self')
        (map fst (convert_listen_description_into_find_tuple (sck_local_address sck))) =
        Some (Obj (retain sck)) \<and>
      mset (yield_vals (tp_listen_sockets self')) +
        (case lookup_path (tp_listen_sockets self)
                (map fst (convert_listen_description_into_find_tuple
                   (sck_local_address sck))) of
           Some old \<Rightarrow> mset (yield_vals old) | None \<Rightarrow> {#}) =
        mset (yield_vals (tp_listen_sockets self)) + {#retain sck#}"
    if "add_listen_socket_proxy self sck = (None, self')" for sck self'
    using add_listen_socket_proxy_lookup[OF assms that] add_listen_socket_proxy_mset[OF that]
    by simp
  show ?thesis
    using look add release_still_retained[OF assms, of laddr]
      release_last_retain[OF assms, of laddr]
    by blast
qed

lemma example_wf: "wf_cache (tp_listen_sockets example_listen_transport)"
  by (simp add: example_listen_transport_def AF_INET_def SOCK_DGRAM_def)

lemma example_find:
  "find_cached_object (tp_listen_sockets example_listen_transport)
     (convert_listen_description_into_find_tuple example_laddr) =
   (Inr ([(AF_INET, Dict [(SOCK_DGRAM, Dict [(PyStr ''127.0.0.1'',
             Dict [(PyInt 5060, Obj example_listen_socket)])])]),
          (SOCK_DGRAM, Dict [(PyStr ''127.0.0.1'',
             Dict [(PyInt 5060, Obj example_listen_socket)])]),
          (PyStr ''127.0.0.1'', Dict [(PyInt 5060, Obj example_listen_socket)]),
          (PyInt 5060, Obj example_listen_socket)],
         Some (Obj example_listen_socket)),
    tp_listen_sockets example_listen_transport)"
  by (simp add: convert_listen_description_into_find_tuple_def find_cached_object_def
      example_laddr_def example_listen_transport_def AF_INET_def SOCK_DGRAM_def Let_def)

lemma example_add:
  "add_listen_socket_proxy example_listen_transport example_second_socket =
     (None,
      \<lparr>tp_listen_sockets =
         Dict [(AF_INET,
                Dict [(SOCK_DGRAM,
                       Dict [(PyStr ''127.0.0.1'',
                              Dict [(PyInt 5060, Obj example_listen_socket),
                                    (PyInt 5061, Obj (retain example_second_socket))])])])],
       tp_connected_sockets = Dict []\<rparr>)"
  by (simp add: add_listen_socket_proxy_def convert_listen_description_into_find_tuple_def
      example_second_socket_def example_laddr_def example_listen_transport_def
      AF_INET_def SOCK_DGRAM_def Let_def retain_def)

lemma example_add_keys:
  "lookup_path (tp_listen_sockets example_listen_transport)
     (map fst (convert_listen_description_into_find_tuple
        (sck_local_address example_second_socket))) = None"
  by (simp add: convert_listen_description_into_find_tuple_def
      example_second_socket_def example_laddr_def example_listen_transport_def
      AF_INET_def SOCK_DGRAM_def)

lemma example_shared_wf: "wf_cache (tp_listen_sockets example_shared_transport)"
  by (simp add: example_shared_transport_def AF_INET_def SOCK_DGRAM_def)

lemma example_shared_find:
  "find_cached_object (tp_listen_sockets example_shared_transport)
     (convert_listen_description_into_find_tuple example_laddr) =
   (Inr ([(AF_INET, Dict [(SOCK_DGRAM, Dict [(PyStr ''127.0.0.1'',
             Dict [(PyInt 5060, Obj (retain example_listen_socket))])])]),
          (SOCK_DGRAM, Dict [(PyStr ''127.0.0.1'',
             Dict [(PyInt 5060, Obj (retain example_listen_socket))])]),
          (PyStr ''127.0.0.1'', Dict [(PyInt 5060, Obj (retain example_listen_socket))]),
          (PyInt 5060, Obj (retain example_listen_socket))],
         Some (Obj (retain example_listen_socket))),
    tp_listen_sockets example_shared_transport)"
  by (simp add: convert_listen_description_into_find_tuple_def find_cached_object_def
      example_laddr_def example_shared_transport_def AF_INET_def SOCK_DGRAM_def Let_def)

theorem cache_lookup_add_release_witness:
  "wf_cache (tp_listen_sockets example_shared_transport) \<and>
   retain_count (retain example_listen_socket) = 2 \<and>
   (\<exists>self'. release_listen_address example_shared_transport example_laddr = (None, self') \<and>
      lookup_path (tp_listen_sockets self')
        [AF_INET, SOCK_DGRAM, PyStr ''127.0.0.1'', PyInt 5060] =
        Some (Obj example_listen_socket) \<and>
      mset (yield_vals (tp_listen_sockets self')) = {#example_listen_socket#}) \<and>
   wf_cache (tp_listen_sockets example_listen_transport) \<and>
   retain_count example_listen_socket = 1 \<and>
   yield_vals (tp_listen_sockets example_listen_transport) = [example_listen_socket] \<and>
   yield_vals (snd (find_cached_object (tp_listen_sockets example_listen_transport)
                      (convert_listen_description_into_find_tuple
                         (example_laddr\<lparr>laddr_sock_type := SOCK_STREAM\<rparr>)))) =
     [example_listen_socket] \<and>
   (\<exists>self'. add_listen_socket_proxy example_listen_transport example_second_socket =
        (None, self') \<and>
      lookup_path (tp_listen_sockets self')
        [AF_INET, SOCK_DGRAM, PyStr ''127.0.0.1'', PyInt 5061] =
        Some (Obj (retain example_second_socket)) \<and>
      mset (yield_vals (tp_listen_sockets self')) =
        {#example_listen_socket, retain example_second_socket#}) \<and>
   (\<exists>self'. release_listen_address example_listen_transport example_laddr = (None, self') \<and>
      mset (yield_vals (tp_listen_sockets self')) + {#example_listen_socket#} =
        mset (yield_vals (tp_listen_sockets example_listen_transport)) \<and>
      lookup_path (tp_listen_sockets self')
        [AF_INET, SOCK_DGRAM, PyStr ''127.0.0.1'', PyInt 5060] = None \<and>
      (\<exists>items. lookup_path (tp_listen_sockets self')
         [AF_INET, SOCK_DGRAM, PyStr ''127.0.0.1''] = Some (Dict items)))"
proof -
  have rc: "retain_count example_listen_socket = 1" by (simp add: example_listen_socket_def)
  have yv: "yield_vals (tp_listen_sockets example_listen_transport) = [example_listen_socket]"
    by (simp add: example_listen_transport_def)
  have keys: "map fst (convert_listen_description_into_find_tuple
        (sck_local_address example_second_socket)) =
      [AF_INET, SOCK_DGRAM, PyStr ''127.0.0.1'', PyInt 5061]"
    by (simp add: convert_listen_description_into_find_tuple_def example_second_socket_def
        example_laddr_def)
  note t = cache_lookup_add_release[OF example_wf,
      where tpl="convert_listen_description_into_find_tuple
                   (example_laddr\<lparr>laddr_sock_type := SOCK_STREAM\<rparr>)"
      and laddr=example_laddr]
  from t have look: "yield_vals (snd (find_cached_object
       (tp_listen_sockets example_listen_transport)
       (convert_listen_description_into_find_tuple
          (example_laddr\<lparr>laddr_sock_type := SOCK_STREAM\<rparr>)))) = [example_listen_socket]"
    using yv by simp
  obtain self2 where a: "add_listen_socket_proxy example_listen_transport example_second_socket =
      (None, self2)" using example_add by blast
  from t a have "lookup_path (tp_listen_sockets self2)
        (map fst (convert_listen_description_into_find_tuple
           (sck_local_address example_second_socket))) =
        Some (Obj (retain example_second_socket)) \<and>
      mset (yield_vals (tp_listen_sockets self2)) +
        (case lookup_path (tp_listen_sockets example_listen_transport)
                (map fst (convert_listen_description_into_find_tuple
                   (sck_local_address example_second_socket))) of
           Some old \<Rightarrow> mset (yield_vals old) | None \<Rightarrow> {#}) =
        mset (yield_vals (tp_listen_sockets example_listen_transport)) +
          {#retain example_second_socket#}"
    by blast
  then have add: "lookup_path (tp_listen_sockets self2)
        [AF_INET, SOCK_DGRAM, PyStr ''127.0.0.1'', PyInt 5061] =
        Some (Obj (retain example_second_socket)) \<and>
      mset (yield_vals (tp_listen_sockets self2)) =
        {#example_listen_socket, retain example_second_socket#}"
    unfolding example_add_keys unfolding keys using yv by simp
  from t example_find rc
  have rel: "\<exists>self'. release_listen_address example_listen_transport example_laddr = (None, self') \<and>
      mset (yield_vals (tp_listen_sockets self')) + {#example_listen_socket#} =
        mset (yield_vals (tp_listen_sockets example_listen_transport)) \<and>
      lookup_path (tp_listen_sockets self')
        [AF_INET, SOCK_DGRAM, PyStr ''127.0.0.1'', PyInt 5060] = None \<and>
      (\<exists>items. lookup_path (tp_listen_sockets self')
         [AF_INET, SOCK_DGRAM, PyStr ''127.0.0.1''] = Some (Dict items))"
    by fastforce
  have rc2: "retain_count (retain example_listen_socket) = 2"
    "1 < retain_count (retain example_listen_socket)"
    "release (retain example_listen_socket) = example_listen_socket"
    by (simp_all add: retain_def release_def example_listen_socket_def)
  have yv2: "yield_vals (tp_listen_sockets example_shared_transport) =
      [retain example_listen_socket]"
    by (simp add: example_shared_transport_def)
  from cache_lookup_add_release[OF example_shared_wf, where laddr=example_laddr]
    example_shared_find rc2(2)
  have "\<exists>self'. release_listen_address example_shared_transport example_laddr = (None, self') \<and>
      mset (yield_vals (tp_listen_sockets self')) + {#retain example_listen_socket#} =
        mset (yield_vals (tp_listen_sockets example_shared_transport)) +
          {#release (retain example_listen_socket)#} \<and>
      lookup_path (tp_listen_sockets self')
        [AF_INET, SOCK_DGRAM, PyStr ''127.0.0.1'', PyInt 5060] =
        Some (Obj (release (retain example_listen_socket)))"
    by fastforce
  then have shared: "\<exists>self'. release_listen_address example_shared_transport example_laddr =
        (None, self') \<and>
      lookup_path (tp_listen_sockets self')
        [AF_INET, SOCK_DGRAM, PyStr ''127.0.0.1'', PyInt 5060] =
        Some (Obj example_listen_socket) \<and>
      mset (yield_vals (tp_listen_sockets self')) = {#example_listen_socket#}"
    unfolding rc2(3) yv2 by auto
  show ?thesis using example_shared_wf rc2(1) shared example_wf rc yv look a add rel by blast
qed

text \<open>
  The claim as stated fails: a look-up in the empty cache finds nothing and leaves
  dictionaries for the family and the type behind, and releasing the only socket of the
  example transport leaves the dictionaries of its family, type and name behind, the
  last one empty: paths of keys under which there is no socket.
\<close>

theorem cache_lookup_and_release_leave_empty_branches:
  "find_cached_object (Dict []) (convert_listen_description_into_find_tuple example_laddr) =
     (Inr ([(AF_INET, Dict [(SOCK_DGRAM, Dict [])]), (SOCK_DGRAM, Dict [])], None),
      Dict [(AF_INET, Dict [(SOCK_DGRAM, Dict [])])]) \<and>
   release_listen_address example_listen_transport example_laddr =
     (None,
      \<lparr>tp_listen_sockets =
         Dict [(AF_INET, Dict [(SOCK_DGRAM, Dict [(PyStr ''127.0.0.1'', Dict [])])])],
       tp_connected_sockets = Dict []\<rparr>)"
  using example_failed_lookup example_release by simp

end
